theory Spec2Isabelle
  imports Main "HOL-Library.Product_Lexorder"
begin

section \<open>Python values\<close>

text \<open>
  A holiday record is whatever \<^verbatim>\<open>response.json()\<close> produced: a JSON value. A Python
  \<^verbatim>\<open>str\<close> is a \<^typ>\<open>string\<close> whose characters stand for the code points below 256; a
  \<^verbatim>\<open>dict\<close> is an association list that lists each key once, in insertion order; a Python
  \<^verbatim>\<open>int\<close> is an \<^typ>\<open>int\<close>. A \<^verbatim>\<open>float\<close> is identified by the text that
  \<^verbatim>\<open>float.__repr__\<close> prints for it, a sequence of digits, point, exponent mark and signs.
\<close>

datatype fglyph = FDigit nat | FPoint | FExp | FPlus | FMinus

datatype pyfloat = PyNaN | PyInf | PyNegInf | PyFinite "fglyph list"

datatype json =
    JNull
  | JBool bool
  | JInt int
  | JFloat pyfloat
  | JStr string
  | JArr "json list"
  | JObj "(string \<times> json) list"

text \<open>The exceptions (all below \<^verbatim>\<open>Exception\<close>) that the program can meet.\<close>

datatype exn =
    KeyError string
  | TypeError
  | ValueError
  | OverflowError
  | HTTPError
  | RequestException
  | JSONDecodeError
  | IOError
  | RecursionError

text \<open>What the program prints: one constructor for each \<^verbatim>\<open>print\<close> of the source.\<close>

datatype message =
    NoHolidaysFound string int
  | HTTPErrorOccurred
  | RequestErrorOccurred exn
  | UnexpectedErrorOccurred exn
  | MissingKey string
  | ProcessingError exn
  | SuccessfullySaved string
  | FailedToWrite string
  | UnexpectedWhileSaving exn
  | InvalidDate

section \<open>Naive datetime objects\<close>

record datetime =
  year :: int
  month :: int
  day :: int
  hour :: int
  minute :: int
  second :: int
  microsecond :: int

text \<open>Comparison of two naive datetimes is the comparison of their field tuples.\<close>

definition dt_key :: "datetime \<Rightarrow> int \<times> int \<times> int \<times> int \<times> int \<times> int \<times> int" where
  "dt_key t = (year t, month t, day t, hour t, minute t, second t, microsecond t)"

definition dt_le :: "datetime \<Rightarrow> datetime \<Rightarrow> bool" where
  "dt_le a b = (dt_key a \<le> dt_key b)"

definition dt_less :: "datetime \<Rightarrow> datetime \<Rightarrow> bool" where
  "dt_less a b = (dt_key a < dt_key b)"

definition is_leap :: "int \<Rightarrow> bool" where
  "is_leap y = (y mod 4 = 0 \<and> (y mod 100 \<noteq> 0 \<or> y mod 400 = 0))"

definition days_in_month :: "int \<Rightarrow> int \<Rightarrow> int" where
  "days_in_month y m =
     (if m = 2 then (if is_leap y then 29 else 28)
      else if m = 4 \<or> m = 6 \<or> m = 9 \<or> m = 11 then 30 else 31)"

text \<open>
  The range checks of the \<^verbatim>\<open>datetime\<close> constructor, in its order: year, month, day.
\<close>

definition check_date_args :: "int \<Rightarrow> int \<Rightarrow> int \<Rightarrow> exn + datetime" where
  "check_date_args y m d =
     (if y < 1 \<or> 9999 < y then Inl ValueError
      else if m < 1 \<or> 12 < m then Inl ValueError
      else if d < 1 \<or> days_in_month y m < d then Inl ValueError
      else Inr \<lparr>year = y, month = m, day = d, hour = 0, minute = 0, second = 0,
                microsecond = 0\<rparr>)"

text \<open>
  An argument of the constructor is converted to a C \<^verbatim>\<open>int\<close>: a \<^verbatim>\<open>bool\<close> is an
  \<^verbatim>\<open>int\<close>, a value of another type is a \<^verbatim>\<open>TypeError\<close>, an \<^verbatim>\<open>int\<close> outside 32 bits
  an \<^verbatim>\<open>OverflowError\<close>.
\<close>

definition as_c_int :: "json \<Rightarrow> exn + int" where
  "as_c_int v =
     (case v of
        JInt n \<Rightarrow> if - 2147483648 \<le> n \<and> n \<le> 2147483647 then Inr n else Inl OverflowError
      | JBool b \<Rightarrow> Inr (if b then 1 else 0)
      | _ \<Rightarrow> Inl TypeError)"

text \<open>\<^verbatim>\<open>datetime(year=yv, month=mv, day=dv)\<close>: the three conversions, then the range checks.\<close>

definition datetime_new :: "json \<Rightarrow> json \<Rightarrow> json \<Rightarrow> exn + datetime" where
  "datetime_new yv mv dv =
     (case as_c_int yv of Inl x \<Rightarrow> Inl x | Inr y \<Rightarrow>
      case as_c_int mv of Inl x \<Rightarrow> Inl x | Inr m \<Rightarrow>
      case as_c_int dv of Inl x \<Rightarrow> Inl x | Inr d \<Rightarrow>
      check_date_args y m d)"

section \<open>The Holiday Filter\<close>

text \<open>\<^verbatim>\<open>v[k]\<close> for a string key: only a dict can be subscripted by a \<^verbatim>\<open>str\<close>.\<close>

definition getitem :: "json \<Rightarrow> string \<Rightarrow> exn + json" where
  "getitem v k =
     (case v of
        JObj kvs \<Rightarrow> (case map_of kvs k of None \<Rightarrow> Inl (KeyError k) | Some x \<Rightarrow> Inr x)
      | _ \<Rightarrow> Inl TypeError)"

text \<open>\<^verbatim>\<open>holiday['date']['datetime'][k]\<close>\<close>

definition date_field :: "json \<Rightarrow> string \<Rightarrow> exn + json" where
  "date_field holiday k =
     (case getitem holiday ''date'' of Inl x \<Rightarrow> Inl x | Inr a \<Rightarrow>
      case getitem a ''datetime'' of Inl x \<Rightarrow> Inl x | Inr b \<Rightarrow>
      getitem b k)"

text \<open>
  Lines 51 to 55: the three keyword arguments are evaluated in the order written, then the
  constructor runs.
\<close>

definition holiday_date :: "json \<Rightarrow> exn + datetime" where
  "holiday_date holiday =
     (case date_field holiday ''year'' of Inl x \<Rightarrow> Inl x | Inr yv \<Rightarrow>
      case date_field holiday ''month'' of Inl x \<Rightarrow> Inl x | Inr mv \<Rightarrow>
      case date_field holiday ''day'' of Inl x \<Rightarrow> Inl x | Inr dv \<Rightarrow>
      datetime_new yv mv dv)"

text \<open>
  One turn of the loop of lines 49 to 61, on the pair of the list built so far and the lines
  printed so far: the \<^verbatim>\<open>KeyError\<close> handler comes first, the handler of
  \<^verbatim>\<open>Exception\<close> takes every other error, and both go on with the next record.
\<close>

definition filter_step ::
  "datetime \<Rightarrow> datetime \<Rightarrow> json \<Rightarrow> json list \<times> message list \<Rightarrow> json list \<times> message list"
where
  "filter_step start_date end_date holiday st =
     (case holiday_date holiday of
        Inr d \<Rightarrow>
          if dt_le start_date d \<and> dt_le d end_date then (fst st @ [holiday], snd st) else st
      | Inl (KeyError k) \<Rightarrow> (fst st, snd st @ [MissingKey k])
      | Inl err \<Rightarrow> (fst st, snd st @ [ProcessingError err]))"

fun filter_loop ::
  "json list \<Rightarrow> datetime \<Rightarrow> datetime \<Rightarrow> json list \<times> message list \<Rightarrow> json list \<times> message list"
where
  "filter_loop [] start_date end_date st = st"
| "filter_loop (holiday # holidays) start_date end_date st =
     filter_loop holidays start_date end_date (filter_step start_date end_date holiday st)"

definition filter_run :: "json list \<Rightarrow> datetime \<Rightarrow> datetime \<Rightarrow> json list \<times> message list" where
  "filter_run holidays start_date end_date = filter_loop holidays start_date end_date ([], [])"

text \<open>The list returned, and the lines printed on the way.\<close>

definition filter_holidays_by_date :: "json list \<Rightarrow> datetime \<Rightarrow> datetime \<Rightarrow> json list" where
  "filter_holidays_by_date holidays start_date end_date =
     fst (filter_run holidays start_date end_date)"

definition filter_printed :: "json list \<Rightarrow> datetime \<Rightarrow> datetime \<Rightarrow> message list" where
  "filter_printed holidays start_date end_date = snd (filter_run holidays start_date end_date)"

subsection \<open>Notions of the specification about the filter\<close>

text \<open>A record whose date resolves and lies in the inclusive window.\<close>

definition in_window :: "datetime \<Rightarrow> datetime \<Rightarrow> json \<Rightarrow> bool" where
  "in_window s e h = (case holiday_date h of Inr d \<Rightarrow> dt_le s d \<and> dt_le d e | Inl _ \<Rightarrow> False)"

text \<open>The day before and the day after, on the calendar, the time of day kept.\<close>

definition minus_one_day :: "datetime \<Rightarrow> datetime" where
  "minus_one_day t =
     (if 1 < day t then t\<lparr>day := day t - 1\<rparr>
      else if 1 < month t then t\<lparr>month := month t - 1, day := days_in_month (year t) (month t - 1)\<rparr>
      else t\<lparr>year := year t - 1, month := 12, day := 31\<rparr>)"

definition plus_one_day :: "datetime \<Rightarrow> datetime" where
  "plus_one_day t =
     (if day t < days_in_month (year t) (month t) then t\<lparr>day := day t + 1\<rparr>
      else if month t < 12 then t\<lparr>month := month t + 1, day := 1\<rparr>
      else t\<lparr>year := year t + 1, month := 1, day := 1\<rparr>)"

text \<open>
  A record that lacks one of the nested fields: the lookup of the year, of the month or
  of the day does not reach a value.
\<close>

definition lacks_date_field :: "json \<Rightarrow> bool" where
  "lacks_date_field h =
     (\<exists>k \<in> set [''year'', ''month'', ''day''].
        case date_field h k of Inl _ \<Rightarrow> True | Inr _ \<Rightarrow> False)"

text \<open>A record of the provider's shape with the given date components.\<close>

definition holiday_on :: "string \<Rightarrow> json \<Rightarrow> json \<Rightarrow> json \<Rightarrow> json" where
  "holiday_on name yv mv dv =
     JObj [(''name'', JStr name),
           (''date'', JObj [(''iso'', JStr name),
                            (''datetime'', JObj [(''year'', yv), (''month'', mv), (''day'', dv)])])]"

definition mk_date :: "int \<Rightarrow> int \<Rightarrow> int \<Rightarrow> datetime" where
  "mk_date y m d =
     \<lparr>year = y, month = m, day = d, hour = 0, minute = 0, second = 0, microsecond = 0\<rparr>"

text \<open>The line that the loop prints for one record, if any.\<close>

definition filter_report :: "json \<Rightarrow> message list" where
  "filter_report h =
     (case holiday_date h of
        Inr d \<Rightarrow> []
      | Inl (KeyError k) \<Rightarrow> [MissingKey k]
      | Inl err \<Rightarrow> [ProcessingError err])"

text \<open>Records for the examples.\<close>

definition jan :: "int \<Rightarrow> json" where
  "jan d = holiday_on ''h'' (JInt 2024) (JInt 1) (JInt d)"

definition no_day :: json where
  "no_day = JObj [(''name'', JStr ''x''),
     (''date'', JObj [(''datetime'', JObj [(''year'', JInt 2024), (''month'', JInt 1)])])]"

definition month13 :: json where
  "month13 = holiday_on ''m'' (JInt 2024) (JInt 13) (JInt 1)"

definition day40 :: json where
  "day40 = holiday_on ''d'' (JInt 2024) (JInt 1) (JInt 40)"

definition year_text :: json where
  "year_text = holiday_on ''y'' (JStr ''2024'') (JInt 1) (JInt 1)"

section \<open>Parsing and printing dates\<close>

text \<open>
  \<^verbatim>\<open>datetime.strptime(s, '%Y-%m-%d')\<close> matches the regular expression that the library
  builds from the format,
  \<^verbatim>\<open>(?P<Y>\d\d\d\d)-(?P<m>1[0-2]|0[1-9]|[1-9])-(?P<d>3[0-1]|[1-2]\d|0[1-9]|[1-9]| [1-9])\<close>,
  at the start of the string, refuses a string with anything left after the match, and
  builds the date from the three groups. Each group below returns its matches as pairs
  of the text matched and the rest, in the order of the alternatives, so that the first
  element of the list of all matches is the match of a backtracking matcher. Among the code
  points below 256 the decimal digits are the ASCII ones.
\<close>

definition is_digit :: "char \<Rightarrow> bool" where
  "is_digit c = (c \<in> set ''0123456789'')"

definition is_digit19 :: "char \<Rightarrow> bool" where
  "is_digit19 c = (c \<in> set ''123456789'')"

fun match_Y :: "string \<Rightarrow> (string \<times> string) list" where
  "match_Y (a # b # c # d # rest) =
     (if is_digit a \<and> is_digit b \<and> is_digit c \<and> is_digit d then [([a, b, c, d], rest)] else [])"
| "match_Y _ = []"

fun match_chr :: "char \<Rightarrow> string \<Rightarrow> string list" where
  "match_chr c (x # rest) = (if x = c then [rest] else [])"
| "match_chr c [] = []"

text \<open>One alternative made of two character classes, and one made of a single class.\<close>

fun match_two :: "(char \<Rightarrow> bool) \<Rightarrow> (char \<Rightarrow> bool) \<Rightarrow> string \<Rightarrow> (string \<times> string) list" where
  "match_two p q (a # b # rest) = (if p a \<and> q b then [([a, b], rest)] else [])"
| "match_two p q _ = []"

fun match_one :: "(char \<Rightarrow> bool) \<Rightarrow> string \<Rightarrow> (string \<times> string) list" where
  "match_one p (a # rest) = (if p a then [([a], rest)] else [])"
| "match_one p [] = []"

definition match_m :: "string \<Rightarrow> (string \<times> string) list" where
  "match_m s =
     match_two (\<lambda>c. c = CHR ''1'') (\<lambda>c. c \<in> set ''012'') s
     @ match_two (\<lambda>c. c = CHR ''0'') is_digit19 s
     @ match_one is_digit19 s"

definition match_d :: "string \<Rightarrow> (string \<times> string) list" where
  "match_d s =
     match_two (\<lambda>c. c = CHR ''3'') (\<lambda>c. c \<in> set ''01'') s
     @ match_two (\<lambda>c. c \<in> set ''12'') is_digit s
     @ match_two (\<lambda>c. c = CHR ''0'') is_digit19 s
     @ match_one is_digit19 s
     @ match_two (\<lambda>c. c = CHR '' '') is_digit19 s"

text \<open>All the matches of the whole expression, the preferred one first.\<close>

definition regex_matches :: "string \<Rightarrow> (string \<times> string \<times> string \<times> string) list" where
  "regex_matches s =
     concat (map (\<lambda>(yt, r1).
       concat (map (\<lambda>r2.
         concat (map (\<lambda>(mt, r3).
           concat (map (\<lambda>r4.
             map (\<lambda>(dt, r5). (yt, mt, dt, r5)) (match_d r4))
           (match_chr CHR ''-'' r3)))
         (match_m r2)))
       (match_chr CHR ''-'' r1)))
     (match_Y s))"

text \<open>\<^verbatim>\<open>int(text)\<close> on a group: blanks around the digits are stripped.\<close>

definition digit_val :: "char \<Rightarrow> int" where
  "digit_val c = int (of_char c) - 48"

definition int_of_text :: "string \<Rightarrow> int" where
  "int_of_text t = foldl (\<lambda>n c. 10 * n + digit_val c) 0 (filter (\<lambda>c. c \<noteq> CHR '' '') t)"

definition strptime :: "string \<Rightarrow> exn + datetime" where
  "strptime data_string =
     (case regex_matches data_string of
        [] \<Rightarrow> Inl ValueError
      | (yt, mt, dt, rest) # _ \<Rightarrow>
          if rest \<noteq> [] then Inl ValueError
          else check_date_args (int_of_text yt) (int_of_text mt) (int_of_text dt))"

text \<open>
  Lines 78 to 87. The comparison \<^verbatim>\<open>start_date_obj > end_date_obj\<close> raises the same
  \<^verbatim>\<open>ValueError\<close> as a failed parse; the handler prints one line and raises it again.
\<close>

definition validate_dates_try :: "string \<Rightarrow> string \<Rightarrow> exn + datetime \<times> datetime" where
  "validate_dates_try start_date end_date =
     (case strptime start_date of Inl x \<Rightarrow> Inl x | Inr start_date_obj \<Rightarrow>
      case strptime end_date of Inl x \<Rightarrow> Inl x | Inr end_date_obj \<Rightarrow>
      if dt_less end_date_obj start_date_obj then Inl ValueError
      else Inr (start_date_obj, end_date_obj))"

definition validate_dates :: "string \<Rightarrow> string \<Rightarrow> (exn + datetime \<times> datetime) \<times> message list" where
  "validate_dates start_date end_date =
     (case validate_dates_try start_date end_date of
        Inl ValueError \<Rightarrow> (Inl ValueError, [InvalidDate])
      | Inl x \<Rightarrow> (Inl x, [])
      | Inr p \<Rightarrow> (Inr p, []))"

text \<open>Decimal numerals.\<close>

definition digit_char :: "nat \<Rightarrow> char" where
  "digit_char n = ''0123456789'' ! (n mod 10)"

fun digits_of :: "nat \<Rightarrow> string" where
  "digits_of n = (if n < 10 then [digit_char n] else digits_of (n div 10) @ [digit_char n])"

declare digits_of.simps [simp del]

definition str_int :: "int \<Rightarrow> string" where
  "str_int i = (if i < 0 then CHR ''-'' # digits_of (nat (- i)) else digits_of (nat i))"

text \<open>
  \<^verbatim>\<open>strftime('%d-%m-%Y')\<close> hands the format to the C library. \<^verbatim>\<open>%d\<close> and \<^verbatim>\<open>%m\<close>
  are two digits, filled with a zero. \<^verbatim>\<open>%Y\<close> is the year in decimal, which some C
  libraries fill with zeros to four digits and others (glibc) do not: the flag says
  which one runs the program.
\<close>

definition two_digits :: "int \<Rightarrow> string" where
  "two_digits n = (if n < 10 then CHR ''0'' # str_int n else str_int n)"

definition zero_fill4 :: "string \<Rightarrow> string" where
  "zero_fill4 t = replicate (4 - length t) CHR ''0'' @ t"

definition strftime :: "bool \<Rightarrow> datetime \<Rightarrow> string" where
  "strftime fills t =
     two_digits (day t) @ ''-'' @ two_digits (month t) @ ''-''
     @ (if fills then zero_fill4 (str_int (year t)) else str_int (year t))"

subsection \<open>Notions of the specification about dates\<close>

text \<open>A calendar date, and its text in the form YYYY-MM-DD and in the form DD-MM-YYYY.\<close>

definition valid_date :: "datetime \<Rightarrow> bool" where
  "valid_date t = (check_date_args (year t) (month t) (day t) = Inr t)"

definition four_digits :: "int \<Rightarrow> string" where
  "four_digits y =
     [digit_char (nat y div 1000), digit_char (nat y div 100), digit_char (nat y div 10),
      digit_char (nat y)]"


definition dmy_text :: "datetime \<Rightarrow> string" where
  "dmy_text t =
     [digit_char (nat (day t) div 10), digit_char (nat (day t))] @ ''-''
     @ [digit_char (nat (month t) div 10), digit_char (nat (month t))] @ ''-''
     @ four_digits (year t)"


section \<open>The world outside the program\<close>

text \<open>
  The program sends requests, writes files and prints. The state records the requests
  sent (country and year, in order), the files and the lines printed. What the provider
  answers, whether the disk fails and how the C library prints a year are not decided
  by the program: they are parameters, which may depend on everything that happened
  before.
\<close>

record world =
  requests :: "(string \<times> int) list"
  files :: "string \<Rightarrow> string option"
  stdout :: "message list"

text \<open>
  The outcome of lines 27 to 29. \<^verbatim>\<open>requests.get\<close> raises, or returns a response with
  a status code and a body; \<^verbatim>\<open>response.json()\<close> raises on that body (the
  \<^verbatim>\<open>JSONDecodeError\<close> of the library, or another exception such as a plain
  \<^verbatim>\<open>ValueError\<close>), or decodes it.
\<close>

datatype body_outcome = JsonRaises exn | Json json

datatype http_outcome = GetRaises exn | Response int body_outcome

text \<open>
  A failure of the disk: \<^verbatim>\<open>open\<close> raises, or the write of index \<open>k\<close> raises, with
  the exception raised.
\<close>

datatype io_fault = OpenFails exn | WriteFails nat exn

text \<open>
  \<^verbatim>\<open>json.dumps\<close> raises on a value beyond the limits of the interpreter (an
  \<^verbatim>\<open>int\<close> of more digits than the conversion limit, a nesting deeper than the
  recursion limit): which values these are is a parameter too.
\<close>

record env =
  respond :: "world \<Rightarrow> string \<Rightarrow> int \<Rightarrow> http_outcome"
  disk :: "world \<Rightarrow> string \<Rightarrow> io_fault option"
  fills_year :: bool
  encoder_refuses :: "json \<Rightarrow> exn option"

definition say :: "message list \<Rightarrow> world \<Rightarrow> world" where
  "say ms w = w\<lparr>stdout := stdout w @ ms\<rparr>"

section \<open>The Holiday Fetcher\<close>

fun contains_str :: "string \<Rightarrow> string \<Rightarrow> bool" where
  "contains_str k [] = (k = [])"
| "contains_str k (c # cs) = (take (length k) (c # cs) = k \<or> contains_str k cs)"

text \<open>
  \<^verbatim>\<open>k in v\<close> for a string \<open>k\<close>: a key of a dict, an element of a list, a part of a
  string; a value of another type is not iterable.
\<close>

definition contains :: "string \<Rightarrow> json \<Rightarrow> exn + bool" where
  "contains k v =
     (case v of
        JObj kvs \<Rightarrow> Inr (k \<in> set (map fst kvs))
      | JArr xs \<Rightarrow> Inr (JStr k \<in> set xs)
      | JStr t \<Rightarrow> Inr (contains_str k t)
      | _ \<Rightarrow> Inl TypeError)"

text \<open>
  What \<^verbatim>\<open>list.extend(v)\<close> appends: the elements of a list, the characters of a string,
  the keys of a dict; another value raises and appends nothing.
\<close>

definition elements :: "json \<Rightarrow> exn + json list" where
  "elements v =
     (case v of
        JArr xs \<Rightarrow> Inr xs
      | JStr t \<Rightarrow> Inr (map (\<lambda>c. JStr [c]) t)
      | JObj kvs \<Rightarrow> Inr (map (\<lambda>kv. JStr (fst kv)) kvs)
      | _ \<Rightarrow> Inl TypeError)"

text \<open>Lines 31 to 34, on the decoded body: the holidays added and the line printed.\<close>

definition extract_holidays :: "json \<Rightarrow> string \<Rightarrow> int \<Rightarrow> exn + json list \<times> message list" where
  "extract_holidays data country yr =
     (case contains ''response'' data of Inl x \<Rightarrow> Inl x
      | Inr False \<Rightarrow> Inr ([], [NoHolidaysFound country yr])
      | Inr True \<Rightarrow>
     (case getitem data ''response'' of Inl x \<Rightarrow> Inl x | Inr r \<Rightarrow>
     (case contains ''holidays'' r of Inl x \<Rightarrow> Inl x
      | Inr False \<Rightarrow> Inr ([], [NoHolidaysFound country yr])
      | Inr True \<Rightarrow>
     (case getitem r ''holidays'' of Inl x \<Rightarrow> Inl x | Inr hs \<Rightarrow>
     (case elements hs of Inl x \<Rightarrow> Inl x | Inr items \<Rightarrow> Inr (items, []))))))"

text \<open>
  The body of the \<^verbatim>\<open>try\<close>, lines 27 to 34. \<^verbatim>\<open>raise_for_status\<close> raises
  \<^verbatim>\<open>HTTPError\<close> for a status from 400 to 599 and for no other status.
\<close>

definition fetch_try :: "http_outcome \<Rightarrow> string \<Rightarrow> int \<Rightarrow> exn + json list \<times> message list" where
  "fetch_try outcome country yr =
     (case outcome of
        GetRaises err \<Rightarrow> Inl err
      | Response status body \<Rightarrow>
          if 400 \<le> status \<and> status < 600 then Inl HTTPError
          else (case body of
                  JsonRaises err \<Rightarrow> Inl err
                | Json data \<Rightarrow> extract_holidays data country yr))"

text \<open>
  Lines 18 to 43. The three handlers, in their order; the decoding error of the
  \<^verbatim>\<open>requests\<close> library is one of its \<^verbatim>\<open>RequestException\<close>s, every exception
  that is neither goes to the last handler. Every handler leaves \<^verbatim>\<open>holidays\<close> empty,
  and line 43 returns it.
\<close>

definition fetch_holidays :: "env \<Rightarrow> string \<Rightarrow> int \<Rightarrow> world \<Rightarrow> json list \<times> world" where
  "fetch_holidays ev country yr w =
     (let w1 = w\<lparr>requests := requests w @ [(country, yr)]\<rparr> in
      case fetch_try (respond ev w country yr) country yr of
        Inr (holidays, out) \<Rightarrow> (holidays, say out w1)
      | Inl HTTPError \<Rightarrow> ([], say [HTTPErrorOccurred] w1)
      | Inl RequestException \<Rightarrow> ([], say [RequestErrorOccurred RequestException] w1)
      | Inl JSONDecodeError \<Rightarrow> ([], say [RequestErrorOccurred JSONDecodeError] w1)
      | Inl err \<Rightarrow> ([], say [UnexpectedErrorOccurred err] w1))"

subsection \<open>Notions of the specification about the fetcher\<close>

text \<open>The body has the path \<^verbatim>\<open>response.holidays\<close>: two nested objects with these keys.\<close>

definition has_holidays_path :: "json \<Rightarrow> bool" where
  "has_holidays_path data =
     (case data of
        JObj kvs \<Rightarrow>
          (case map_of kvs ''response'' of
             Some (JObj rs) \<Rightarrow> ''holidays'' \<in> set (map fst rs)
           | _ \<Rightarrow> False)
      | _ \<Rightarrow> False)"

text \<open>A status that is not a success: outside 200 to 299.\<close>

definition non_2xx :: "int \<Rightarrow> bool" where
  "non_2xx status = (status < 200 \<or> 300 \<le> status)"

section \<open>The File Writer\<close>

text \<open>
  \<^verbatim>\<open>json.dumps\<close> with its default arguments: separators \<^verbatim>\<open>', '\<close> and \<^verbatim>\<open>': '\<close>,
  every character outside the printable ASCII range escaped.
\<close>

definition newline :: char where
  "newline = CHR 0x0A"

definition hex_char :: "nat \<Rightarrow> char" where
  "hex_char n = ''0123456789abcdef'' ! (n mod 16)"

definition escape_char :: "char \<Rightarrow> string" where
  "escape_char c =
     (if c = CHR 0x22 then [CHR 0x5C, CHR 0x22]
      else if c = CHR 0x5C then [CHR 0x5C, CHR 0x5C]
      else if c = CHR 0x0A then [CHR 0x5C, CHR ''n'']
      else if c = CHR 0x0D then [CHR 0x5C, CHR ''r'']
      else if c = CHR 0x09 then [CHR 0x5C, CHR ''t'']
      else if c = CHR 0x08 then [CHR 0x5C, CHR ''b'']
      else if c = CHR 0x0C then [CHR 0x5C, CHR ''f'']
      else if of_char c < (32 :: nat) \<or> (126 :: nat) < of_char c
        then [CHR 0x5C, CHR ''u'', CHR ''0'', CHR ''0'', hex_char (of_char c div 16),
              hex_char (of_char c)]
      else [c])"

definition encode_str :: "string \<Rightarrow> string" where
  "encode_str t = CHR 0x22 # concat (map escape_char t) @ [CHR 0x22]"

definition glyph_char :: "fglyph \<Rightarrow> char" where
  "glyph_char g =
     (case g of FDigit n \<Rightarrow> digit_char n | FPoint \<Rightarrow> CHR ''.'' | FExp \<Rightarrow> CHR ''e''
      | FPlus \<Rightarrow> CHR ''+'' | FMinus \<Rightarrow> CHR ''-'')"

definition float_repr :: "pyfloat \<Rightarrow> string" where
  "float_repr f =
     (case f of PyNaN \<Rightarrow> ''NaN'' | PyInf \<Rightarrow> ''Infinity'' | PyNegInf \<Rightarrow> ''-Infinity''
      | PyFinite gs \<Rightarrow> map glyph_char gs)"

fun join_with :: "string \<Rightarrow> string list \<Rightarrow> string" where
  "join_with sep [] = []"
| "join_with sep [x] = x"
| "join_with sep (x # y # zs) = x @ sep @ join_with sep (y # zs)"

primrec dumps :: "json \<Rightarrow> string" where
  "dumps JNull = ''null''"
| "dumps (JBool b) = (if b then ''true'' else ''false'')"
| "dumps (JInt n) = str_int n"
| "dumps (JFloat f) = float_repr f"
| "dumps (JStr t) = encode_str t"
| "dumps (JArr xs) = ''['' @ join_with '', '' (map dumps xs) @ '']''"
| "dumps (JObj kvs) =
     ''{'' @ join_with '', '' (map (\<lambda>kv. encode_str (fst kv) @ '': '' @ snd kv)
                                  (map (map_prod id dumps) kvs)) @ ''}''"

text \<open>
  Lines 69 and 70, one turn for each record: \<^verbatim>\<open>json.dumps\<close> encodes the record, unless
  the encoder refuses it, and \<^verbatim>\<open>write\<close> appends the line, unless the disk refuses
  this write. The result is the content written and the exception raised, if any.
\<close>

fun write_loop ::
  "(json \<Rightarrow> exn option) \<Rightarrow> (nat \<times> exn) option \<Rightarrow> nat \<Rightarrow> json list \<Rightarrow> string
     \<Rightarrow> string \<times> exn option"
where
  "write_loop refuses fails i [] content = (content, None)"
| "write_loop refuses fails i (holiday # rest) content =
     (case refuses holiday of
        Some err \<Rightarrow> (content, Some err)
      | None \<Rightarrow>
          if map_option fst fails = Some i then (content, map_option snd fails)
          else write_loop refuses fails (Suc i) rest (content @ dumps holiday @ [newline]))"

text \<open>The line of the handler that takes the exception: lines 72 and 73, or 74 and 75.\<close>

definition save_report :: "string \<Rightarrow> exn \<Rightarrow> message" where
  "save_report filename err =
     (if err = IOError then FailedToWrite filename else UnexpectedWhileSaving err)"

text \<open>
  Lines 66 to 75. Opening with mode \<^verbatim>\<open>'w'\<close> empties the file; both handlers print and
  return.
\<close>

definition save_to_file :: "env \<Rightarrow> string \<Rightarrow> json list \<Rightarrow> world \<Rightarrow> world" where
  "save_to_file ev filename data w =
     (case disk ev w filename of
        Some (OpenFails err) \<Rightarrow> say [save_report filename err] w
      | fault \<Rightarrow>
          (case write_loop (encoder_refuses ev)
                  (case fault of Some (WriteFails k err) \<Rightarrow> Some (k, err) | _ \<Rightarrow> None)
                  0 data []
           of (content, raised) \<Rightarrow>
             say [case raised of None \<Rightarrow> SuccessfullySaved filename
                  | Some err \<Rightarrow> save_report filename err]
               (w\<lparr>files := (files w)(filename \<mapsto> content)\<rparr>)))"

subsection \<open>Notions of the specification about the writer\<close>



text \<open>
  The write goes through: the encoder refuses no record, and the disk refuses neither
  the opening nor one of the writes.
\<close>

definition write_succeeds :: "env \<Rightarrow> string \<Rightarrow> json list \<Rightarrow> world \<Rightarrow> bool" where
  "write_succeeds ev filename data w =
     ((\<forall>h \<in> set data. encoder_refuses ev h = None)
      \<and> (case disk ev w filename of
            None \<Rightarrow> True
          | Some (OpenFails err) \<Rightarrow> False
          | Some (WriteFails k err) \<Rightarrow> length data \<le> k))"

section \<open>The Orchestrator\<close>

text \<open>Lines 101 to 103, on the accumulator \<^verbatim>\<open>all_holidays\<close> and the world.\<close>

fun year_loop :: "env \<Rightarrow> string \<Rightarrow> int list \<Rightarrow> json list \<times> world \<Rightarrow> json list \<times> world" where
  "year_loop ev country [] st = st"
| "year_loop ev country (yr # yrs) st =
     (case fetch_holidays ev country yr (snd st) of
        (holidays, w) \<Rightarrow> year_loop ev country yrs (fst st @ holidays, w))"

text \<open>Line 106.\<close>

definition output_name :: "bool \<Rightarrow> string \<Rightarrow> datetime \<Rightarrow> datetime \<Rightarrow> string" where
  "output_name fills country start_date_obj end_date_obj =
     country @ ''_'' @ strftime fills start_date_obj @ ''_'' @ strftime fills end_date_obj
     @ ''.txt''"

text \<open>Lines 97 to 107: the body of the loop over the countries.\<close>

definition process_country :: "env \<Rightarrow> datetime \<Rightarrow> datetime \<Rightarrow> string \<Rightarrow> world \<Rightarrow> world" where
  "process_country ev start_date_obj end_date_obj country w =
     (case year_loop ev country [year start_date_obj .. year end_date_obj] ([], w) of
        (all_holidays, w1) \<Rightarrow>
          (case filter_run all_holidays start_date_obj end_date_obj of
             (filtered_holidays, out) \<Rightarrow>
               save_to_file ev
                 (output_name (fills_year ev) country start_date_obj end_date_obj)
                 filtered_holidays (say out w1)))"

fun country_loop :: "env \<Rightarrow> datetime \<Rightarrow> datetime \<Rightarrow> string list \<Rightarrow> world \<Rightarrow> world" where
  "country_loop ev a b [] w = w"
| "country_loop ev a b (country # rest) w =
     country_loop ev a b rest (process_country ev a b country w)"

text \<open>Lines 90 to 107.\<close>

definition main :: "env \<Rightarrow> string list \<Rightarrow> string \<Rightarrow> string \<Rightarrow> world \<Rightarrow> world" where
  "main ev countries_list start_date end_date w =
     (case validate_dates start_date end_date of
        (Inl err, out) \<Rightarrow> say out w
      | (Inr (start_date_obj, end_date_obj), out) \<Rightarrow>
          country_loop ev start_date_obj end_date_obj countries_list (say out w))"

subsection \<open>Notions of the specification about the orchestrator\<close>

text \<open>The requests of one country, one for each year of the window, in the order of the years.\<close>

definition country_requests :: "datetime \<Rightarrow> datetime \<Rightarrow> string \<Rightarrow> (string \<times> int) list" where
  "country_requests a b country = map (\<lambda>yr. (country, yr)) [year a .. year b]"

text \<open>The lists that the fetches of one country return, one for each year, in order.\<close>

fun year_results :: "env \<Rightarrow> string \<Rightarrow> int list \<Rightarrow> world \<Rightarrow> json list list" where
  "year_results ev country [] w = []"
| "year_results ev country (yr # yrs) w =
     fst (fetch_holidays ev country yr w)
     # year_results ev country yrs (snd (fetch_holidays ev country yr w))"

text \<open>The validation fails: a string does not parse, or the start is after the end.\<close>

definition validation_fails :: "string \<Rightarrow> string \<Rightarrow> bool" where
  "validation_fails start_date end_date =
     (case strptime start_date of Inl _ \<Rightarrow> True | Inr a \<Rightarrow>
      case strptime end_date of Inl _ \<Rightarrow> True | Inr b \<Rightarrow> dt_less b a)"

text \<open>An empty world, a provider and a quiet disk, for the examples.\<close>

definition world0 :: world where
  "world0 = \<lparr>requests = [], files = (\<lambda>f. None), stdout = []\<rparr>"

definition provider :: "(string \<Rightarrow> int \<Rightarrow> http_outcome) \<Rightarrow> bool \<Rightarrow> env" where
  "provider answer fills =
     \<lparr>respond = (\<lambda>w. answer), disk = (\<lambda>w f. None), fills_year = fills,
      encoder_refuses = (\<lambda>v. None)\<rparr>"

text \<open>An answer with a status of the server errors.\<close>

definition server_error :: http_outcome where
  "server_error = Response 500 (JsonRaises JSONDecodeError)"

text \<open>Bodies for the examples.\<close>

definition no_path_body :: json where
  "no_path_body = JObj [(''meta'', JObj [(''code'', JInt 200)]), (''response'', JArr [])]"

definition text_body :: json where
  "text_body = JStr ''the response has holidays''"

text \<open>The text that the loop of the writer produces when no write fails.\<close>

definition json_lines :: "json list \<Rightarrow> string" where
  "json_lines data = concat (map (\<lambda>h. dumps h @ [newline]) data)"


definition new_year :: json where
  "new_year = holiday_on ''New Year'' (JInt 2023) (JInt 1) (JInt 1)"

definition summer :: json where
  "summer = holiday_on ''Summer'' (JInt 2023) (JInt 6) (JInt 15)"

text \<open>A body with two holidays of 2023 under \<^verbatim>\<open>response.holidays\<close>.\<close>

definition holidays_body :: json where
  "holidays_body =
     JObj [(''meta'', JObj [(''code'', JInt 200)]),
           (''response'', JObj [(''holidays'', JArr [new_year, summer])])]"

text \<open>The provider of the scenario: two holidays in 2023, nothing in other years.\<close>

definition answer_2023 :: "string \<Rightarrow> int \<Rightarrow> http_outcome" where
  "answer_2023 country yr = (if yr = 2023 then Response 200 (Json holidays_body) else server_error)"

text \<open>
  What the fetcher returns for one country and year when the provider's answer is a
  function of the country and the year alone, and the holidays of one country over the
  years of a window, in the order of the years.
\<close>

definition year_holidays :: "(string \<Rightarrow> int \<Rightarrow> http_outcome) \<Rightarrow> string \<Rightarrow> int \<Rightarrow> json list" where
  "year_holidays answer country yr = fst (fetch_holidays (provider answer False) country yr world0)"

definition window_holidays ::
  "(string \<Rightarrow> int \<Rightarrow> http_outcome) \<Rightarrow> datetime \<Rightarrow> datetime \<Rightarrow> string \<Rightarrow> json list"
where
  "window_holidays answer a b country =
     concat (map (year_holidays answer country) [year a .. year b])"

text \<open>A provider with holidays in two years, inside and outside the window of the example.\<close>

definition body_with :: "json list \<Rightarrow> json" where
  "body_with hs = JObj [(''response'', JObj [(''holidays'', JArr hs)])]"

definition christmas :: json where
  "christmas = holiday_on ''Christmas'' (JInt 2023) (JInt 12) (JInt 25)"

definition answer_two_years :: "string \<Rightarrow> int \<Rightarrow> http_outcome" where
  "answer_two_years country yr =
     (if yr = 2023 then Response 200 (Json (body_with [summer, christmas]))
      else if yr = 2024 then Response 200 (Json (body_with [jan 1, jan 10]))
      else server_error)"

section \<open>Properties of the filter\<close>

lemma filter_step_kept:
  "in_window s e h \<Longrightarrow> filter_step s e h st = (fst st @ [h], snd st)"
  by (auto simp: filter_step_def in_window_def split: sum.splits)

lemma filter_step_dropped:
  "\<not> in_window s e h \<Longrightarrow> fst (filter_step s e h st) = fst st"
  by (auto simp: filter_step_def in_window_def split: sum.splits exn.splits)

lemma fst_filter_loop:
  "fst (filter_loop hs s e st) = fst st @ filter (in_window s e) hs"
proof (induction hs arbitrary: st)
  case Nil
  show ?case by simp
next
  case (Cons h hs)
  show ?case
  proof (cases "in_window s e h")
    case True
    then show ?thesis by (simp add: Cons.IH filter_step_kept)
  next
    case False
    then show ?thesis by (simp add: Cons.IH filter_step_dropped)
  qed
qed

lemma filter_holidays_by_date_eq:
  "filter_holidays_by_date hs s e = filter (in_window s e) hs"
  by (simp add: filter_holidays_by_date_def filter_run_def fst_filter_loop)

lemma dt_less_minus_one_day: "dt_less (minus_one_day t) t"
  by (simp add: dt_less_def dt_key_def minus_one_day_def)

lemma dt_less_plus_one_day: "dt_less t (plus_one_day t)"
  by (simp add: dt_less_def dt_key_def plus_one_day_def)

lemma dt_less_not_le: "dt_less a b \<Longrightarrow> \<not> dt_le b a"
  by (simp add: dt_less_def dt_le_def)

lemma dt_le_refl: "dt_le a a"
  by (simp add: dt_le_def)

lemma snd_filter_step: "snd (filter_step s e h st) = snd st @ filter_report h"
  by (auto simp: filter_step_def filter_report_def split: sum.splits exn.splits)

lemma snd_filter_loop:
  "snd (filter_loop hs s e st) = snd st @ concat (map filter_report hs)"
  by (induction hs arbitrary: st) (simp_all add: snd_filter_step)

lemma filter_printed_eq: "filter_printed hs s e = concat (map filter_report hs)"
  by (simp add: filter_printed_def filter_run_def snd_filter_loop)

lemma holiday_date_holiday_on:
  "holiday_date (holiday_on n yv mv dv) = datetime_new yv mv dv"
  by (simp add: holiday_date_def date_field_def getitem_def holiday_on_def)

lemma filter_report_lacks:
  assumes "lacks_date_field h"
  shows "(\<exists>k. filter_report h = [MissingKey k]) \<or> filter_report h = [ProcessingError TypeError]"
proof -
  have g: "getitem v k = Inl x \<Longrightarrow> x = KeyError k \<or> x = TypeError" for v k x
    by (auto simp: getitem_def split: json.splits option.splits)
  have f: "date_field h k = Inl x \<Longrightarrow> (\<exists>j. x = KeyError j) \<or> x = TypeError" for k x
    by (auto simp: date_field_def split: sum.splits dest: g)
  have "\<exists>x. holiday_date h = Inl x \<and> ((\<exists>j. x = KeyError j) \<or> x = TypeError)"
  proof (cases "date_field h ''year''")
    case (Inl x)
    then show ?thesis using f [OF Inl] by (simp add: holiday_date_def)
  next
    case y: (Inr yv)
    show ?thesis
    proof (cases "date_field h ''month''")
      case (Inl x)
      then show ?thesis using f [OF Inl] y by (simp add: holiday_date_def)
    next
      case m: (Inr mv)
      show ?thesis
      proof (cases "date_field h ''day''")
        case (Inl x)
        then show ?thesis using f [OF Inl] y m by (simp add: holiday_date_def)
      next
        case (Inr dv)
        with y m assms show ?thesis by (simp add: lacks_date_field_def)
      qed
    qed
  qed
  then show ?thesis
    by (auto simp: filter_report_def)
qed

lemma lacks_not_in_window: "lacks_date_field h \<Longrightarrow> \<not> in_window s e h"
  by (auto simp: lacks_date_field_def in_window_def holiday_date_def split: sum.splits)

lemma construction_fails_report:
  assumes "\<not> lacks_date_field h" and "holiday_date h = Inl err"
  shows "(err = TypeError \<or> err = ValueError \<or> err = OverflowError)
     \<and> filter_report h = [ProcessingError err]"
proof -
  have c: "as_c_int v = Inl x \<Longrightarrow> x = TypeError \<or> x = OverflowError" for v x
    by (auto simp: as_c_int_def split: json.splits if_splits)
  have k: "check_date_args y m d = Inl x \<Longrightarrow> x = ValueError" for y m d x
    by (auto simp: check_date_args_def split: if_splits)
  have n: "datetime_new yv mv dv = Inl x \<Longrightarrow> x = TypeError \<or> x = ValueError \<or> x = OverflowError"
    for yv mv dv x
    by (auto simp: datetime_new_def split: sum.splits dest: c k)
  from assms obtain yv mv dv where "datetime_new yv mv dv = Inl err"
    by (auto simp: lacks_date_field_def holiday_date_def split: sum.splits)
  then have e: "err = TypeError \<or> err = ValueError \<or> err = OverflowError"
    by (rule n)
  with assms(2) show ?thesis
    by (auto simp: filter_report_def)
qed

lemma has_fields_holiday_on: "\<not> lacks_date_field (holiday_on n yv mv dv)"
  by (simp add: lacks_date_field_def holiday_on_def date_field_def getitem_def)

text \<open>
  Claim C1. For every list of holiday records and every window with start \<open>\<le>\<close> end, the
  filter keeps exactly the records whose resolved date \<open>d\<close> satisfies
  start \<open>\<le>\<close> \<open>d\<close> \<open>\<le>\<close> end, in their order: a record dated exactly the start or exactly
  the end is kept, a record dated one day before the start or one day after the end is
  dropped.
\<close>

theorem filter_keeps_exactly_the_window:
  assumes "dt_le s e"
  shows "filter_holidays_by_date hs s e = filter (in_window s e) hs
    \<and> (\<forall>h. h \<in> set (filter_holidays_by_date hs s e) \<longleftrightarrow>
          h \<in> set hs \<and> (\<exists>d. holiday_date h = Inr d \<and> dt_le s d \<and> dt_le d e))
    \<and> (\<forall>h \<in> set hs. holiday_date h = Inr s \<longrightarrow> h \<in> set (filter_holidays_by_date hs s e))
    \<and> (\<forall>h \<in> set hs. holiday_date h = Inr e \<longrightarrow> h \<in> set (filter_holidays_by_date hs s e))
    \<and> (\<forall>h. holiday_date h = Inr (minus_one_day s) \<longrightarrow> h \<notin> set (filter_holidays_by_date hs s e))
    \<and> (\<forall>h. holiday_date h = Inr (plus_one_day e) \<longrightarrow> h \<notin> set (filter_holidays_by_date hs s e))"
proof -
  have mem: "h \<in> set (filter_holidays_by_date hs s e) \<longleftrightarrow>
      h \<in> set hs \<and> (\<exists>d. holiday_date h = Inr d \<and> dt_le s d \<and> dt_le d e)" for h
    by (auto simp: filter_holidays_by_date_eq in_window_def split: sum.splits)
  have before: "\<not> dt_le s (minus_one_day s)"
    by (rule dt_less_not_le) (rule dt_less_minus_one_day)
  have after: "\<not> dt_le (plus_one_day e) e"
    by (rule dt_less_not_le) (rule dt_less_plus_one_day)
  show ?thesis
    using assms before after by (auto simp: mem dt_le_refl filter_holidays_by_date_eq [symmetric])
qed

theorem filter_keeps_exactly_the_window_witness:
  "dt_le (mk_date 2024 1 10) (mk_date 2024 1 20)
   \<and> filter_holidays_by_date [jan 9, jan 10, jan 15, jan 20, jan 21]
       (mk_date 2024 1 10) (mk_date 2024 1 20) = [jan 10, jan 15, jan 20]
   \<and> jan 10 \<in> set (filter_holidays_by_date [jan 9, jan 10, jan 15, jan 20, jan 21]
       (mk_date 2024 1 10) (mk_date 2024 1 20))
   \<and> holiday_date (jan 9) = Inr (minus_one_day (mk_date 2024 1 10))"
proof -
  have le: "dt_le (mk_date 2024 1 10) (mk_date 2024 1 20)"
    by (simp add: dt_le_def dt_key_def mk_date_def)
  have d: "holiday_date (jan k) = check_date_args 2024 1 k" if "- 100 \<le> k" "k \<le> 100" for k
    using that by (simp add: jan_def holiday_date_holiday_on datetime_new_def as_c_int_def)
  have w: "in_window (mk_date 2024 1 10) (mk_date 2024 1 20) (jan k) = (10 \<le> k \<and> k \<le> 20)"
    if "1 \<le> k" "k \<le> 31" for k
    using that by (auto simp: in_window_def d check_date_args_def days_in_month_def dt_le_def
        dt_key_def mk_date_def)
  have s: "holiday_date (jan 10) = Inr (mk_date 2024 1 10)"
    by (simp add: d check_date_args_def days_in_month_def mk_date_def)
  have b: "holiday_date (jan 9) = Inr (minus_one_day (mk_date 2024 1 10))"
    by (simp add: d check_date_args_def days_in_month_def mk_date_def minus_one_day_def)
  note t = filter_keeps_exactly_the_window [OF le, of "[jan 9, jan 10, jan 15, jan 20, jan 21]"]
  from t have "filter_holidays_by_date [jan 9, jan 10, jan 15, jan 20, jan 21]
       (mk_date 2024 1 10) (mk_date 2024 1 20)
     = filter (in_window (mk_date 2024 1 10) (mk_date 2024 1 20))
         [jan 9, jan 10, jan 15, jan 20, jan 21]"
    by (rule conjunct1)
  also have "\<dots> = [jan 10, jan 15, jan 20]"
    by (simp add: w)
  finally have r: "filter_holidays_by_date [jan 9, jan 10, jan 15, jan 20, jan 21]
       (mk_date 2024 1 10) (mk_date 2024 1 20) = [jan 10, jan 15, jan 20]" .
  have m: "jan 10 \<in> set [jan 9, jan 10, jan 15, jan 20, jan 21]"
    by simp
  have k: "jan 10 \<in> set (filter_holidays_by_date [jan 9, jan 10, jan 15, jan 20, jan 21]
       (mk_date 2024 1 10) (mk_date 2024 1 20))"
    by (rule t [THEN conjunct2, THEN conjunct2, THEN conjunct1, rule_format, OF m s])
  from le r k b show ?thesis by (intro conjI)
qed

text \<open>
  Claim C6. The filter is idempotent: applied to its own output with the same window, it
  returns that output.
\<close>

theorem filter_idempotent:
  "filter_holidays_by_date (filter_holidays_by_date hs s e) s e = filter_holidays_by_date hs s e"
  by (simp add: filter_holidays_by_date_eq)

text \<open>
  Claim C7. A record that lacks one of the nested year, month and day fields is dropped
  without an exception leaving the filter: one line is printed for it, and the other
  records are filtered as they are when the record is absent.
\<close>

theorem filter_skips_record_without_date_fields:
  assumes "lacks_date_field h"
  shows "filter_holidays_by_date (xs @ h # ys) s e = filter_holidays_by_date (xs @ ys) s e
    \<and> h \<notin> set (filter_holidays_by_date (xs @ h # ys) s e)
    \<and> (\<exists>m. filter_printed (xs @ h # ys) s e = filter_printed xs s e @ [m] @ filter_printed ys s e
          \<and> ((\<exists>k. m = MissingKey k) \<or> m = ProcessingError TypeError))"
proof -
  have out: "\<not> in_window s e h"
    using assms by (rule lacks_not_in_window)
  from filter_report_lacks [OF assms] obtain m
    where m: "filter_report h = [m]" "(\<exists>k. m = MissingKey k) \<or> m = ProcessingError TypeError"
    by auto
  have "filter_printed (xs @ h # ys) s e = filter_printed xs s e @ [m] @ filter_printed ys s e"
    by (simp add: filter_printed_eq m)
  with m(2) out show ?thesis
    by (auto simp: filter_holidays_by_date_eq)
qed

theorem filter_skips_record_without_date_fields_witness:
  "lacks_date_field no_day
   \<and> filter_holidays_by_date ([jan 10] @ no_day # [jan 15]) (mk_date 2024 1 10) (mk_date 2024 1 20)
     = filter_holidays_by_date ([jan 10] @ [jan 15]) (mk_date 2024 1 10) (mk_date 2024 1 20)
   \<and> filter_printed [no_day] (mk_date 2024 1 10) (mk_date 2024 1 20) = [MissingKey ''day'']"
proof -
  have l: "lacks_date_field no_day"
    by (simp add: lacks_date_field_def no_day_def date_field_def getitem_def)
  have p: "filter_printed [no_day] (mk_date 2024 1 10) (mk_date 2024 1 20) = [MissingKey ''day'']"
    by (simp add: filter_printed_def filter_run_def filter_step_def holiday_date_def no_day_def
        date_field_def getitem_def)
  from filter_skips_record_without_date_fields [OF l, of "[jan 10]" "[jan 15]"
      "mk_date 2024 1 10" "mk_date 2024 1 20"] l p
  show ?thesis by blast
qed

text \<open>
  Claim C10. A record that has the three nested fields, with values from which no date
  can be built (a month 13, a day 40, a value that is not an integer), is skipped as well:
  the error is a \<^verbatim>\<open>TypeError\<close>, a \<^verbatim>\<open>ValueError\<close> or an \<^verbatim>\<open>OverflowError\<close>, the handler
  of \<^verbatim>\<open>Exception\<close> prints its line, and the other records are filtered as they are when
  the record is absent.
\<close>

theorem filter_skips_record_with_invalid_date:
  assumes "\<not> lacks_date_field h" and "holiday_date h = Inl err"
  shows "(err = TypeError \<or> err = ValueError \<or> err = OverflowError)
    \<and> filter_holidays_by_date (xs @ h # ys) s e = filter_holidays_by_date (xs @ ys) s e
    \<and> h \<notin> set (filter_holidays_by_date (xs @ h # ys) s e)
    \<and> filter_printed (xs @ h # ys) s e
        = filter_printed xs s e @ [ProcessingError err] @ filter_printed ys s e"
proof -
  from construction_fails_report [OF assms]
  have e: "err = TypeError \<or> err = ValueError \<or> err = OverflowError"
    and r: "filter_report h = [ProcessingError err]" by simp_all
  have out: "\<not> in_window s e h"
    using assms(2) by (simp add: in_window_def)
  have "filter_printed (xs @ h # ys) s e
      = filter_printed xs s e @ [ProcessingError err] @ filter_printed ys s e"
    by (simp add: filter_printed_eq r)
  with e out show ?thesis
    by (simp add: filter_holidays_by_date_eq)
qed

theorem filter_skips_record_with_invalid_date_witness:
  "\<not> lacks_date_field month13 \<and> holiday_date month13 = Inl ValueError
   \<and> holiday_date day40 = Inl ValueError \<and> holiday_date year_text = Inl TypeError
   \<and> filter_holidays_by_date ([jan 10] @ month13 # [day40, year_text, jan 15])
        (mk_date 2024 1 10) (mk_date 2024 1 20)
     = filter_holidays_by_date ([jan 10] @ [day40, year_text, jan 15])
        (mk_date 2024 1 10) (mk_date 2024 1 20)
   \<and> filter_printed ([] @ month13 # []) (mk_date 2024 1 10) (mk_date 2024 1 20)
     = filter_printed [] (mk_date 2024 1 10) (mk_date 2024 1 20) @ [ProcessingError ValueError]
       @ filter_printed [] (mk_date 2024 1 10) (mk_date 2024 1 20)"
proof -
  have f: "\<not> lacks_date_field month13"
    by (simp add: month13_def has_fields_holiday_on)
  have m: "holiday_date month13 = Inl ValueError"
    by (simp add: month13_def holiday_date_holiday_on datetime_new_def as_c_int_def
        check_date_args_def)
  have d: "holiday_date day40 = Inl ValueError"
    by (simp add: day40_def holiday_date_holiday_on datetime_new_def as_c_int_def
        check_date_args_def days_in_month_def)
  have y: "holiday_date year_text = Inl TypeError"
    by (simp add: year_text_def holiday_date_holiday_on datetime_new_def as_c_int_def)
  note t1 = filter_skips_record_with_invalid_date [OF f m, of "[jan 10]" "[day40, year_text, jan 15]"
      "mk_date 2024 1 10" "mk_date 2024 1 20"]
  note t2 = filter_skips_record_with_invalid_date [OF f m, of "[]" "[]"
      "mk_date 2024 1 10" "mk_date 2024 1 20"]
  from f m d y t1 t2 show ?thesis by blast
qed

section \<open>Properties of the fetcher\<close>

lemma extract_holidays_no_path:
  assumes "\<not> has_holidays_path data"
  shows "(\<exists>err. extract_holidays data c y = Inl err)
     \<or> extract_holidays data c y = Inr ([], [NoHolidaysFound c y])"
proof (cases data)
  case (JObj kvs)
  show ?thesis
  proof (cases "map_of kvs ''response''")
    case None
    then have "''response'' \<notin> set (map fst kvs)"
      by (simp add: map_of_eq_None_iff)
    with JObj show ?thesis
      by (simp add: extract_holidays_def contains_def)
  next
    case (Some r)
    then have k: "''response'' \<in> set (map fst kvs)"
      by (metis map_of_eq_None_iff option.distinct(1) set_map)
    have g: "getitem data ''response'' = Inr r"
      using JObj Some by (simp add: getitem_def)
    have c1: "contains ''response'' data = Inr True"
      using JObj k by (simp add: contains_def)
    from assms JObj Some
    have "(\<exists>err. contains ''holidays'' r = Inl err) \<or> contains ''holidays'' r = Inr False
        \<or> (\<exists>err. getitem r ''holidays'' = Inl err)"
      by (cases r) (auto simp: has_holidays_path_def contains_def getitem_def)
    then show ?thesis
      by (auto simp: extract_holidays_def c1 g split: sum.splits bool.splits)
  qed
qed (auto simp: extract_holidays_def contains_def getitem_def split: bool.splits)

lemma requests_say: "requests (say ms w) = requests w"
  by (simp add: say_def)

lemma files_say: "files (say ms w) = files w"
  by (simp add: say_def)

lemma stdout_say: "stdout (say ms w) = stdout w @ ms"
  by (simp add: say_def)

lemma fetch_holidays_Inl:
  "fetch_try (respond ev w c y) c y = Inl err \<Longrightarrow>
     fst (fetch_holidays ev c y w) = []
     \<and> (\<exists>m. stdout (snd (fetch_holidays ev c y w)) = stdout w @ [m])"
  by (cases err) (simp_all add: fetch_holidays_def Let_def stdout_say)

lemma requests_fetch_holidays:
  "requests (snd (fetch_holidays ev c y w)) = requests w @ [(c, y)]"
  by (simp add: fetch_holidays_def Let_def requests_say split: sum.splits exn.splits prod.splits)

lemma files_fetch_holidays: "files (snd (fetch_holidays ev c y w)) = files w"
  by (simp add: fetch_holidays_def Let_def files_say split: sum.splits exn.splits prod.splits)

lemma fetch_holidays_success:
  assumes "respond ev w c y = Response status (Json (JObj kvs))"
    and "\<not> (400 \<le> status \<and> status < 600)"
    and "map_of kvs ''response'' = Some (JObj rs)"
    and "map_of rs ''holidays'' = Some (JArr hs)"
  shows "fetch_holidays ev c y w = (hs, w\<lparr>requests := requests w @ [(c, y)]\<rparr>)"
proof -
  from assms(3) have k1: "''response'' \<in> fst ` set kvs"
    by (metis map_of_eq_None_iff option.distinct(1))
  from assms(4) have k2: "''holidays'' \<in> fst ` set rs"
    by (metis map_of_eq_None_iff option.distinct(1))
  have "extract_holidays (JObj kvs) c y = Inr (hs, [])"
    using assms(3,4) k1 k2 by (simp add: extract_holidays_def contains_def getitem_def elements_def)
  then show ?thesis
    using assms(1,2) by (auto simp: fetch_holidays_def Let_def fetch_try_def say_def)
qed

text \<open>
  Claim C3, as amended. For every country code and year, no exception leaves the
  fetcher: every error of the body of the \<^verbatim>\<open>try\<close> ends in an empty list and one
  printed line. The result is empty when \<^verbatim>\<open>requests.get\<close> raises, when the status is
  from 400 to 599, when the body does not decode, and when the decoded body lacks the
  path \<^verbatim>\<open>response.holidays\<close>. A status outside 400 to 599 is no failure for the
  fetcher, also when it is not a 2xx status: the body is read, and a list under
  \<^verbatim>\<open>response.holidays\<close> is returned. The caller receives a list in all cases, and one
  request is sent.
\<close>

theorem fetch_holidays_never_raises:
  "(\<forall>err. fetch_try (respond ev w c y) c y = Inl err \<longrightarrow>
      fst (fetch_holidays ev c y w) = []
      \<and> (\<exists>m. stdout (snd (fetch_holidays ev c y w)) = stdout w @ [m]))
   \<and> (\<forall>err. respond ev w c y = GetRaises err \<longrightarrow> fst (fetch_holidays ev c y w) = [])
   \<and> (\<forall>status body. respond ev w c y = Response status body \<and> 400 \<le> status \<and> status < 600 \<longrightarrow>
        fetch_holidays ev c y w
          = ([], say [HTTPErrorOccurred] (w\<lparr>requests := requests w @ [(c, y)]\<rparr>)))
   \<and> (\<forall>status err. respond ev w c y = Response status (JsonRaises err) \<longrightarrow>
        fst (fetch_holidays ev c y w) = [])
   \<and> (\<forall>status data. respond ev w c y = Response status (Json data) \<and> \<not> has_holidays_path data \<longrightarrow>
        fst (fetch_holidays ev c y w) = []
        \<and> (\<exists>m. stdout (snd (fetch_holidays ev c y w)) = stdout w @ [m]))
   \<and> (\<forall>status kvs rs hs. respond ev w c y = Response status (Json (JObj kvs))
        \<and> \<not> (400 \<le> status \<and> status < 600)
        \<and> map_of kvs ''response'' = Some (JObj rs) \<and> map_of rs ''holidays'' = Some (JArr hs) \<longrightarrow>
        fetch_holidays ev c y w = (hs, w\<lparr>requests := requests w @ [(c, y)]\<rparr>))
   \<and> requests (snd (fetch_holidays ev c y w)) = requests w @ [(c, y)]"
proof -
  have a: "fst (fetch_holidays ev c y w) = []" if "respond ev w c y = GetRaises err" for err
  proof -
    from that have "fetch_try (respond ev w c y) c y = Inl err"
      by (simp add: fetch_try_def)
    then show ?thesis by (simp add: fetch_holidays_Inl)
  qed
  have b: "fetch_holidays ev c y w
      = ([], say [HTTPErrorOccurred] (w\<lparr>requests := requests w @ [(c, y)]\<rparr>))"
    if "respond ev w c y = Response status body" "400 \<le> status" "status < 600" for status body
    using that by (simp add: fetch_holidays_def Let_def fetch_try_def)
  have d: "fst (fetch_holidays ev c y w) = []"
    if "respond ev w c y = Response status (JsonRaises err)" for status err
  proof -
    from that have "\<exists>x. fetch_try (respond ev w c y) c y = Inl x"
      by (simp add: fetch_try_def)
    then show ?thesis by (auto dest: fetch_holidays_Inl)
  qed
  have e: "fst (fetch_holidays ev c y w) = []
      \<and> (\<exists>m. stdout (snd (fetch_holidays ev c y w)) = stdout w @ [m])"
    if r: "respond ev w c y = Response status (Json data)" and n: "\<not> has_holidays_path data"
    for status data
  proof -
    from extract_holidays_no_path [OF n, of c y] r
    have "(\<exists>err. fetch_try (respond ev w c y) c y = Inl err)
       \<or> fetch_try (respond ev w c y) c y = Inr ([], [NoHolidaysFound c y])"
      by (auto simp: fetch_try_def)
    then show ?thesis
    proof
      assume "\<exists>err. fetch_try (respond ev w c y) c y = Inl err"
      then show ?thesis by (auto dest: fetch_holidays_Inl)
    next
      assume "fetch_try (respond ev w c y) c y = Inr ([], [NoHolidaysFound c y])"
      then show ?thesis by (simp add: fetch_holidays_def Let_def stdout_say)
    qed
  qed
  show ?thesis
    using a b d e fetch_holidays_success [of ev w c y]
    by (simp add: fetch_holidays_Inl requests_fetch_holidays)
qed

theorem fetch_holidays_never_raises_witness:
  "\<not> has_holidays_path no_path_body
   \<and> fst (fetch_holidays (provider (\<lambda>c y. Response 200 (Json no_path_body)) False) ''UA'' 2024
        world0) = []
   \<and> fetch_try (Response 200 (Json text_body)) ''UA'' 2024 = Inl TypeError
   \<and> fst (fetch_holidays (provider (\<lambda>c y. Response 200 (Json text_body)) False) ''UA'' 2024
        world0) = []
   \<and> fst (fetch_holidays (provider (\<lambda>c y. Response 503 (Json holidays_body)) False) ''UA'' 2024
        world0) = []
   \<and> fst (fetch_holidays (provider (\<lambda>c y. GetRaises RequestException) False) ''UA'' 2024
        world0) = []
   \<and> fst (fetch_holidays (provider (\<lambda>c y. Response 200 (JsonRaises ValueError)) False) ''UA''
        2024 world0) = []
   \<and> fst (fetch_holidays (provider (\<lambda>c y. Response 200 (Json holidays_body)) False) ''UA'' 2023
        world0) = [new_year, summer]"
proof -
  note t = fetch_holidays_never_raises
  have n: "\<not> has_holidays_path no_path_body"
    by (simp add: has_holidays_path_def no_path_body_def)
  have 1: "fst (fetch_holidays (provider (\<lambda>c y. Response 200 (Json no_path_body)) False) ''UA''
      2024 world0) = []"
    using t [of "provider (\<lambda>c y. Response 200 (Json no_path_body)) False" world0 "''UA''" 2024] n
    by (simp add: provider_def)
  have x: "fetch_try (Response 200 (Json text_body)) ''UA'' 2024 = Inl TypeError"
    by (simp add: fetch_try_def extract_holidays_def contains_def text_body_def getitem_def)
  have 2: "fst (fetch_holidays (provider (\<lambda>c y. Response 200 (Json text_body)) False) ''UA''
      2024 world0) = []"
    using t [of "provider (\<lambda>c y. Response 200 (Json text_body)) False" world0 "''UA''" 2024] x
    by (simp add: provider_def)
  have 3: "fst (fetch_holidays (provider (\<lambda>c y. Response 503 (Json holidays_body)) False) ''UA''
      2024 world0) = []"
    using t [of "provider (\<lambda>c y. Response 503 (Json holidays_body)) False" world0 "''UA''" 2024]
    by (simp add: provider_def)
  have 4: "fst (fetch_holidays (provider (\<lambda>c y. GetRaises RequestException) False) ''UA'' 2024
      world0) = []"
    using t [of "provider (\<lambda>c y. GetRaises RequestException) False" world0 "''UA''" 2024]
    by (simp add: provider_def)
  have 5: "fst (fetch_holidays (provider (\<lambda>c y. Response 200 (JsonRaises ValueError)) False)
      ''UA'' 2024 world0) = []"
    using t [of "provider (\<lambda>c y. Response 200 (JsonRaises ValueError)) False" world0 "''UA''"
        2024]
    by (simp add: provider_def)
  have 6: "fst (fetch_holidays (provider (\<lambda>c y. Response 200 (Json holidays_body)) False) ''UA''
      2023 world0) = [new_year, summer]"
    using t [of "provider (\<lambda>c y. Response 200 (Json holidays_body)) False" world0 "''UA''" 2023]
    by (simp add: provider_def holidays_body_def)
  from n 1 x 2 3 4 5 6 show ?thesis by (intro conjI)
qed

text \<open>
  Claim C3 as stated fails on a status that is not 2xx and for which
  \<^verbatim>\<open>raise_for_status\<close> does not raise: an answer with status 300 and a body that has
  holidays under \<^verbatim>\<open>response.holidays\<close> is a failure of the protocol in the sense of
  the claim, and the fetcher returns the holidays, not an empty list.
\<close>

theorem fetch_holidays_counterexample:
  "non_2xx 300
   \<and> fst (fetch_holidays (provider (\<lambda>c y. Response 300 (Json holidays_body)) False) ''UA'' 2023
        world0) = [new_year, summer]
   \<and> fst (fetch_holidays (provider (\<lambda>c y. Response 300 (Json holidays_body)) False) ''UA'' 2023
        world0) \<noteq> []"
proof -
  have r: "respond (provider (\<lambda>c y. Response 300 (Json holidays_body)) False) world0 ''UA'' 2023
      = Response 300 (Json (JObj [(''meta'', JObj [(''code'', JInt 200)]),
           (''response'', JObj [(''holidays'', JArr [new_year, summer])])]))"
    by (simp add: provider_def holidays_body_def)
  have "fetch_holidays (provider (\<lambda>c y. Response 300 (Json holidays_body)) False) ''UA'' 2023
      world0 = ([new_year, summer], world0\<lparr>requests := requests world0 @ [(''UA'', 2023)]\<rparr>)"
    by (rule fetch_holidays_success [OF r, of "[(''holidays'', JArr [new_year, summer])]"
          "[new_year, summer]"]) simp_all
  then show ?thesis
    by (simp add: non_2xx_def)
qed

section \<open>Properties of the orchestrator\<close>

lemma requests_year_loop:
  "requests (snd (year_loop ev c yrs st)) = requests (snd st) @ map (\<lambda>yr. (c, yr)) yrs"
  by (induction yrs arbitrary: st)
    (simp_all add: requests_fetch_holidays split: prod.splits, metis requests_fetch_holidays snd_conv)

lemma files_year_loop: "files (snd (year_loop ev c yrs st)) = files (snd st)"
  by (induction yrs arbitrary: st)
    (simp_all split: prod.splits, metis files_fetch_holidays snd_conv)

lemma fst_year_loop:
  "fst (year_loop ev c yrs st) = fst st @ concat (year_results ev c yrs (snd st))"
  by (induction yrs arbitrary: st) (simp_all split: prod.splits)

lemma requests_save_to_file: "requests (save_to_file ev f data w) = requests w"
  by (simp add: save_to_file_def requests_say split: option.splits io_fault.splits prod.splits)

lemma process_country_eq:
  "process_country ev a b c w =
     save_to_file ev (output_name (fills_year ev) c a b)
       (filter_holidays_by_date (concat (year_results ev c [year a .. year b] w)) a b)
       (say (filter_printed (concat (year_results ev c [year a .. year b] w)) a b)
          (snd (year_loop ev c [year a .. year b] ([], w))))"
proof -
  obtain hs w1 where y: "year_loop ev c [year a .. year b] ([], w) = (hs, w1)"
    by (cases "year_loop ev c [year a .. year b] ([], w)")
  from fst_year_loop [of ev c "[year a .. year b]" "([], w)"] y
  have hs: "hs = concat (year_results ev c [year a .. year b] w)"
    by simp
  obtain fs out where f: "filter_run hs a b = (fs, out)"
    by (cases "filter_run hs a b")
  then have "fs = filter_holidays_by_date hs a b" "out = filter_printed hs a b"
    by (simp_all add: filter_holidays_by_date_def filter_printed_def)
  with y f hs show ?thesis
    by (simp add: process_country_def)
qed

lemma requests_process_country:
  "requests (process_country ev a b c w) = requests w @ country_requests a b c"
  by (simp add: process_country_eq requests_save_to_file requests_say requests_year_loop
      country_requests_def)

lemma requests_country_loop:
  "requests (country_loop ev a b cs w) = requests w @ concat (map (country_requests a b) cs)"
  by (induction cs arbitrary: w) (simp_all add: requests_process_country)

lemma strptime_valid: "strptime t = Inr a \<Longrightarrow> valid_date a"
  by (auto simp: strptime_def valid_date_def check_date_args_def
      split: list.splits prod.splits if_splits)

lemma validate_dates_Inr:
  assumes "validate_dates s e = (Inr (a, b), out)"
  shows "strptime s = Inr a \<and> strptime e = Inr b \<and> dt_le a b \<and> out = []"
proof -
  from assms have "validate_dates_try s e = Inr (a, b) \<and> out = []"
    by (auto simp: validate_dates_def split: sum.splits exn.splits)
  then show ?thesis
    by (auto simp: validate_dates_try_def dt_le_def dt_less_def split: sum.splits if_splits)
qed

lemmas strptime_eval = strptime_def regex_matches_def match_m_def match_d_def is_digit_def
  is_digit19_def int_of_text_def digit_val_def check_date_args_def days_in_month_def is_leap_def
  mk_date_def

lemma dt_le_year: "dt_le a b \<Longrightarrow> year a \<le> year b"
  by (auto simp: dt_le_def dt_key_def)

lemma strptime_Inl: "strptime t = Inl x \<Longrightarrow> x = ValueError"
  by (auto simp: strptime_def check_date_args_def split: list.splits prod.splits if_splits)

lemma validate_dates_fails:
  assumes "validation_fails s e"
  shows "validate_dates s e = (Inl ValueError, [InvalidDate])"
proof -
  from assms have "validate_dates_try s e = Inl ValueError"
    by (auto simp: validation_fails_def validate_dates_try_def split: sum.splits
        dest: strptime_Inl)
  then show ?thesis
    by (simp add: validate_dates_def)
qed

text \<open>
  Claim C8. When the validation of the dates fails (a string that does not parse, or a
  start after the end), the run ends before any country is processed: no request is sent
  and no file is written, for every list of countries.
\<close>

theorem main_aborts_on_invalid_dates:
  assumes "validation_fails s e"
  shows "fst (validate_dates s e) = Inl ValueError
    \<and> main ev cs s e w = say [InvalidDate] w
    \<and> requests (main ev cs s e w) = requests w
    \<and> files (main ev cs s e w) = files w
    \<and> stdout (main ev cs s e w) = stdout w @ [InvalidDate]"
  using validate_dates_fails [OF assms]
  by (simp add: main_def requests_say files_say stdout_say)

theorem main_aborts_on_invalid_dates_witness:
  "validation_fails ''2024-05-10'' ''2024-01-01''
   \<and> validation_fails ''2024-13-40'' ''2024-12-31''
   \<and> requests (main (provider (\<lambda>c y. Response 200 (Json (JObj []))) False) [''UA'', ''US''] ''2024-05-10''
        ''2024-01-01'' world0) = []
   \<and> files (main (provider (\<lambda>c y. Response 200 (Json (JObj []))) False) [''UA'', ''US''] ''2024-05-10''
        ''2024-01-01'' world0) = (\<lambda>f. None)"
proof -
  have a: "validation_fails ''2024-05-10'' ''2024-01-01''"
    by (simp add: validation_fails_def strptime_eval dt_less_def dt_key_def)
  have b: "validation_fails ''2024-13-40'' ''2024-12-31''"
    by (simp add: validation_fails_def strptime_eval)
  from main_aborts_on_invalid_dates [OF a, of "provider (\<lambda>c y. Response 200 (Json (JObj []))) False"
      "[''UA'', ''US'']" world0] a b
  show ?thesis by (simp add: world0_def say_def)
qed

section \<open>Properties of the writer\<close>















lemma write_loop_no_fault:
  "(\<forall>h \<in> set data. refuses h = None) \<Longrightarrow>
   (\<forall>k err. fails = Some (k, err) \<longrightarrow> i + length data \<le> k) \<Longrightarrow>
     write_loop refuses fails i data content = (content @ json_lines data, None)"
proof (induction data arbitrary: i content)
  case Nil
  show ?case by (simp add: json_lines_def)
next
  case (Cons h data)
  from Cons.prems have "map_option fst fails \<noteq> Some i" by auto
  moreover from Cons.prems
  have "\<forall>k err. fails = Some (k, err) \<longrightarrow> Suc i + length data \<le> k" by auto
  moreover from Cons.prems have "refuses h = None" "\<forall>h \<in> set data. refuses h = None"
    by simp_all
  ultimately show ?case
    by (simp add: Cons.IH json_lines_def)
qed



lemma save_report_not_success: "save_report f err \<noteq> SuccessfullySaved g"
  by (simp add: save_report_def)

lemma save_to_file_succeeds:
  assumes "write_succeeds ev f data w"
  shows "save_to_file ev f data w
     = say [SuccessfullySaved f] (w\<lparr>files := (files w)(f \<mapsto> json_lines data)\<rparr>)"
proof -
  from assms have r: "\<forall>h \<in> set data. encoder_refuses ev h = None"
    by (simp add: write_succeeds_def)
  show ?thesis
  proof (cases "disk ev w f")
    case None
    then show ?thesis
      by (simp add: save_to_file_def write_loop_no_fault [OF r])
  next
    case (Some fault)
    with assms obtain k err where "fault = WriteFails k err" "length data \<le> k"
      by (cases fault) (simp_all add: write_succeeds_def)
    with Some show ?thesis
      by (simp add: save_to_file_def write_loop_no_fault [OF r])
  qed
qed





section \<open>Properties of the output name\<close>

lemma digits_of_1: "n < 10 \<Longrightarrow> digits_of n = [digit_char n]"
  by (subst digits_of.simps) simp

lemma digits_of_step: "10 \<le> n \<Longrightarrow> digits_of n = digits_of (n div 10) @ [digit_char n]"
  by (subst digits_of.simps) simp

lemma digits_of_2: "10 \<le> n \<Longrightarrow> n < 100 \<Longrightarrow> digits_of n = [digit_char (n div 10), digit_char n]"
  by (simp add: digits_of_step digits_of_1)

lemma digits_of_3:
  "100 \<le> n \<Longrightarrow> n < 1000 \<Longrightarrow>
     digits_of n = [digit_char (n div 100), digit_char (n div 10), digit_char n]"
  by (simp add: digits_of_step [of n] digits_of_2 div_mult2_eq [symmetric])

lemma digits_of_4:
  "1000 \<le> n \<Longrightarrow> n < 10000 \<Longrightarrow>
     digits_of n
       = [digit_char (n div 1000), digit_char (n div 100), digit_char (n div 10), digit_char n]"
  by (simp add: digits_of_step [of n] digits_of_3 div_mult2_eq [symmetric])

lemma digit_char_0: "digit_char 0 = CHR ''0''"
  by (simp add: digit_char_def)

lemma two_digits_eq:
  assumes "0 \<le> d" and "d < 100"
  shows "two_digits d = [digit_char (nat d div 10), digit_char (nat d)]"
proof (cases "d < 10")
  case True
  with assms have "nat d < 10" "nat d div 10 = 0" by simp_all
  with True assms show ?thesis
    by (simp add: two_digits_def str_int_def digits_of_1 digit_char_0)
next
  case False
  with assms have "10 \<le> nat d" "nat d < 100" by simp_all
  with False assms show ?thesis
    by (simp add: two_digits_def str_int_def digits_of_2)
qed

lemma replicate_small:
  "replicate 3 c = [c, c, c]" "replicate 2 c = [c, c]"
  by (simp_all add: numeral_3_eq_3 numeral_2_eq_2)

lemma year_text_eq:
  assumes "1 \<le> y" and "y \<le> 9999" and "fills \<or> 1000 \<le> y"
  shows "(if fills then zero_fill4 (str_int y) else str_int y) = four_digits y"
proof -
  have s: "str_int y = digits_of (nat y)"
    using assms by (simp add: str_int_def)
  consider "nat y < 10" | "10 \<le> nat y" "nat y < 100" | "100 \<le> nat y" "nat y < 1000"
    | "1000 \<le> nat y" "nat y < 10000"
    using assms by linarith
  then show ?thesis
  proof cases
    case 1
    then have "nat y div 1000 = 0" "nat y div 100 = 0" "nat y div 10 = 0" by simp_all
    moreover from 1 assms have fills by auto
    ultimately show ?thesis using 1
      by (simp add: s digits_of_1 zero_fill4_def four_digits_def digit_char_0 replicate_small)
  next
    case 2
    then have "nat y div 1000 = 0" "nat y div 100 = 0" by simp_all
    moreover from 2 assms have fills by auto
    ultimately show ?thesis using 2
      by (simp add: s digits_of_2 zero_fill4_def four_digits_def digit_char_0 replicate_small)
  next
    case 3
    then have "nat y div 1000 = 0" by simp
    moreover from 3 assms have fills by auto
    ultimately show ?thesis using 3
      by (simp add: s digits_of_3 zero_fill4_def four_digits_def digit_char_0)
  next
    case 4
    then show ?thesis
      by (simp add: s digits_of_4 zero_fill4_def four_digits_def)
  qed
qed

lemma valid_date_ranges:
  assumes "valid_date t"
  shows "1 \<le> year t \<and> year t \<le> 9999 \<and> 1 \<le> month t \<and> month t \<le> 12 \<and> 1 \<le> day t
    \<and> day t \<le> 31 \<and> day t \<le> days_in_month (year t) (month t)"
proof -
  have "days_in_month (year t) (month t) \<le> 31"
    by (simp add: days_in_month_def)
  with assms show ?thesis
    by (auto simp: valid_date_def check_date_args_def split: if_splits)
qed

lemma strftime_dmy:
  assumes "valid_date t" and "fills \<or> 1000 \<le> year t"
  shows "strftime fills t = dmy_text t"
proof -
  from valid_date_ranges [OF assms(1)]
  have r: "1 \<le> year t" "year t \<le> 9999" "0 \<le> month t" "month t < 100" "0 \<le> day t" "day t < 100"
    by simp_all
  show ?thesis
    unfolding strftime_def dmy_text_def
    by (simp only: two_digits_eq [OF r(5,6)] two_digits_eq [OF r(3,4)]
        year_text_eq [OF r(1,2) assms(2)])
qed

lemma files_save_to_file_other:
  "g \<noteq> f \<Longrightarrow> files (save_to_file ev f data w) g = files w g"
  by (simp add: save_to_file_def files_say split: option.splits io_fault.splits prod.splits)

lemma stdout_save_to_file:
  "\<exists>m. stdout (save_to_file ev f data w) = stdout w @ [m]
     \<and> (m = SuccessfullySaved f \<or> (\<exists>err. m = save_report f err))"
  by (auto simp: save_to_file_def stdout_say split: option.splits io_fault.splits prod.splits)

lemma files_process_country_other:
  "g \<noteq> output_name (fills_year ev) c a b \<Longrightarrow> files (process_country ev a b c w) g = files w g"
  by (simp add: process_country_eq files_save_to_file_other files_say files_year_loop)

lemma stdout_process_country:
  "last (stdout (process_country ev a b c w)) = SuccessfullySaved (output_name (fills_year ev) c a b)
   \<or> (\<exists>err. last (stdout (process_country ev a b c w))
         = save_report (output_name (fills_year ev) c a b) err)"
proof -
  obtain data v where p: "process_country ev a b c w
      = save_to_file ev (output_name (fills_year ev) c a b) data v"
    using process_country_eq by blast
  from stdout_save_to_file [of ev "output_name (fills_year ev) c a b" data v] p
  show ?thesis by auto
qed

text \<open>
  Claim C9, as amended. For every country code and every validated window whose years
  have four digits (from 1000 on), or on a platform whose C library fills the year with
  zeros, the name of the destination is the country code, an underscore, the start as
  DD-MM-YYYY, an underscore, the end as DD-MM-YYYY and \<^verbatim>\<open>.txt\<close>; the orchestrator
  writes to no other file for that country, and the line printed by the writer names it.
\<close>

theorem output_name_day_month_year:
  assumes "validate_dates s e = (Inr (a, b), out)"
    and "fills_year ev \<or> (1000 \<le> year a \<and> 1000 \<le> year b)"
  shows "output_name (fills_year ev) c a b
      = c @ ''_'' @ dmy_text a @ ''_'' @ dmy_text b @ ''.txt''
    \<and> (\<forall>w g. g \<noteq> c @ ''_'' @ dmy_text a @ ''_'' @ dmy_text b @ ''.txt'' \<longrightarrow>
          files (process_country ev a b c w) g = files w g)
    \<and> (\<forall>w. last (stdout (process_country ev a b c w))
            = SuccessfullySaved (c @ ''_'' @ dmy_text a @ ''_'' @ dmy_text b @ ''.txt'')
          \<or> (\<exists>err. last (stdout (process_country ev a b c w))
            = save_report (c @ ''_'' @ dmy_text a @ ''_'' @ dmy_text b @ ''.txt'') err))"
proof -
  from validate_dates_Inr [OF assms(1)] have v: "valid_date a" "valid_date b"
    by (auto intro: strptime_valid)
  from assms(2) have "strftime (fills_year ev) a = dmy_text a" "strftime (fills_year ev) b = dmy_text b"
    by (auto intro: strftime_dmy v)
  then have n: "output_name (fills_year ev) c a b
      = c @ ''_'' @ dmy_text a @ ''_'' @ dmy_text b @ ''.txt''"
    by (simp add: output_name_def)
  show ?thesis
    using files_process_country_other [of _ ev c a b] stdout_process_country [of ev a b c]
    unfolding n by blast
qed

theorem output_name_day_month_year_witness:
  "validate_dates ''2023-01-01'' ''2023-01-02'' = (Inr (mk_date 2023 1 1, mk_date 2023 1 2), [])
   \<and> output_name (fills_year (provider (\<lambda>c y. server_error) False)) ''UA'' (mk_date 2023 1 1)
        (mk_date 2023 1 2)
     = ''UA_01-01-2023_02-01-2023.txt''"
proof -
  have v: "validate_dates ''2023-01-01'' ''2023-01-02''
      = (Inr (mk_date 2023 1 1, mk_date 2023 1 2), [])"
    by (simp add: validate_dates_def validate_dates_try_def strptime_eval dt_less_def dt_key_def)
  have y: "fills_year (provider (\<lambda>c y. server_error) False)
      \<or> (1000 \<le> year (mk_date 2023 1 1) \<and> 1000 \<le> year (mk_date 2023 1 2))"
    by (simp add: mk_date_def)
  have "output_name (fills_year (provider (\<lambda>c y. server_error) False)) ''UA'' (mk_date 2023 1 1)
        (mk_date 2023 1 2)
      = ''UA'' @ ''_'' @ dmy_text (mk_date 2023 1 1) @ ''_'' @ dmy_text (mk_date 2023 1 2) @ ''.txt''"
    by (rule output_name_day_month_year [OF v y, THEN conjunct1])
  also have "\<dots> = ''UA_01-01-2023_02-01-2023.txt''"
    by (simp add: dmy_text_def four_digits_def digit_char_def mk_date_def)
  finally show ?thesis using v by simp
qed

text \<open>
  Claim C9 as stated fails where the C library does not fill the year: the validated
  window from 0005-01-01 to 0005-01-02 gives the name \<^verbatim>\<open>UA_01-01-5_02-01-5.txt\<close>, and
  the run writes that file and not \<^verbatim>\<open>UA_01-01-0005_02-01-0005.txt\<close>.
\<close>

theorem output_name_counterexample:
  "validate_dates ''0005-01-01'' ''0005-01-02'' = (Inr (mk_date 5 1 1, mk_date 5 1 2), [])
   \<and> output_name False ''UA'' (mk_date 5 1 1) (mk_date 5 1 2) = ''UA_01-01-5_02-01-5.txt''
   \<and> output_name False ''UA'' (mk_date 5 1 1) (mk_date 5 1 2)
     \<noteq> ''UA'' @ ''_'' @ dmy_text (mk_date 5 1 1) @ ''_'' @ dmy_text (mk_date 5 1 2) @ ''.txt''
   \<and> ''UA'' @ ''_'' @ dmy_text (mk_date 5 1 1) @ ''_'' @ dmy_text (mk_date 5 1 2) @ ''.txt''
     = ''UA_01-01-0005_02-01-0005.txt''
   \<and> files (main (provider (\<lambda>c y. server_error) False) [''UA''] ''0005-01-01'' ''0005-01-02'' world0)
        ''UA_01-01-0005_02-01-0005.txt'' = None
   \<and> files (main (provider (\<lambda>c y. server_error) False) [''UA''] ''0005-01-01'' ''0005-01-02'' world0)
        ''UA_01-01-5_02-01-5.txt'' = Some []"
proof -
  have v: "validate_dates ''0005-01-01'' ''0005-01-02''
      = (Inr (mk_date 5 1 1, mk_date 5 1 2), [])"
    by (simp add: validate_dates_def validate_dates_try_def strptime_eval dt_less_def dt_key_def)
  have n: "output_name False ''UA'' (mk_date 5 1 1) (mk_date 5 1 2) = ''UA_01-01-5_02-01-5.txt''"
    by (simp add: output_name_def strftime_def two_digits_def str_int_def digits_of_1
        digit_char_def mk_date_def)
  have d: "''UA'' @ ''_'' @ dmy_text (mk_date 5 1 1) @ ''_'' @ dmy_text (mk_date 5 1 2) @ ''.txt''
     = ''UA_01-01-0005_02-01-0005.txt''"
    by (simp add: dmy_text_def four_digits_def digit_char_def mk_date_def)
  have u: "[year (mk_date 5 1 1) .. year (mk_date 5 1 2)] = [5]"
    by (simp add: mk_date_def)
  have y: "year_loop (provider (\<lambda>c y. server_error) False) ''UA'' [5] ([], world0)
      = ([], \<lparr>requests = [(''UA'', 5)], files = (\<lambda>f. None), stdout = [HTTPErrorOccurred]\<rparr>)"
    by (simp add: fetch_holidays_def Let_def fetch_try_def provider_def server_error_def
        world0_def say_def)
  have p: "process_country (provider (\<lambda>c y. server_error) False) (mk_date 5 1 1) (mk_date 5 1 2)
        ''UA'' world0
      = \<lparr>requests = [(''UA'', 5)], files = (\<lambda>f. None)(''UA_01-01-5_02-01-5.txt'' \<mapsto> []),
          stdout = [HTTPErrorOccurred, SuccessfullySaved ''UA_01-01-5_02-01-5.txt'']\<rparr>"
    unfolding process_country_def u y
    by (simp add: filter_run_def save_to_file_def say_def)
      (simp add: provider_def n say_def)
  have m: "main (provider (\<lambda>c y. server_error) False) [''UA''] ''0005-01-01'' ''0005-01-02'' world0
      = \<lparr>requests = [(''UA'', 5)], files = (\<lambda>f. None)(''UA_01-01-5_02-01-5.txt'' \<mapsto> []),
          stdout = [HTTPErrorOccurred, SuccessfullySaved ''UA_01-01-5_02-01-5.txt'']\<rparr>"
    using p by (simp add: main_def v say_def world0_def)
  have ne: "output_name False ''UA'' (mk_date 5 1 1) (mk_date 5 1 2)
     \<noteq> ''UA'' @ ''_'' @ dmy_text (mk_date 5 1 1) @ ''_'' @ dmy_text (mk_date 5 1 2) @ ''.txt''"
    unfolding n d by simp
  show ?thesis
    unfolding m by (intro conjI v n d ne) simp_all
qed

section \<open>Properties of the validator\<close>






















section \<open>A run of the whole program\<close>

text \<open>
  The scenario of the specification: one country, the window from 2023-01-01 to
  2023-01-02, a provider that returns holidays on 2023-01-01 and on 2023-06-15. One
  request is sent, for 2023, and the file \<^verbatim>\<open>UA_01-01-2023_02-01-2023.txt\<close> holds the
  record of 2023-01-01 alone.
\<close>

lemma scenario_one_country:
  "main (provider answer_2023 False) [''UA''] ''2023-01-01'' ''2023-01-02'' world0
     = \<lparr>requests = [(''UA'', 2023)],
        files = (\<lambda>f. None)(''UA_01-01-2023_02-01-2023.txt'' \<mapsto> dumps new_year @ [newline]),
        stdout = [SuccessfullySaved ''UA_01-01-2023_02-01-2023.txt'']\<rparr>"
proof -
  have v: "validate_dates ''2023-01-01'' ''2023-01-02''
      = (Inr (mk_date 2023 1 1, mk_date 2023 1 2), [])"
    by (simp add: validate_dates_def validate_dates_try_def strptime_eval dt_less_def dt_key_def)
  have u: "[year (mk_date 2023 1 1) .. year (mk_date 2023 1 2)] = [2023]"
    by (simp add: mk_date_def)
  have r: "respond (provider answer_2023 False) world0 ''UA'' 2023
      = Response 200 (Json (JObj [(''meta'', JObj [(''code'', JInt 200)]),
                    (''response'', JObj [(''holidays'', JArr [new_year, summer])])]))"
    by (simp add: provider_def answer_2023_def holidays_body_def)
  have f: "fetch_holidays (provider answer_2023 False) ''UA'' 2023 world0
      = ([new_year, summer], world0\<lparr>requests := requests world0 @ [(''UA'', 2023)]\<rparr>)"
    by (rule fetch_holidays_success [OF r, of "[(''holidays'', JArr [new_year, summer])]"
          "[new_year, summer]"]) simp_all
  have y: "year_loop (provider answer_2023 False) ''UA'' [2023] ([], world0)
      = ([new_year, summer], \<lparr>requests = [(''UA'', 2023)], files = (\<lambda>f. None), stdout = []\<rparr>)"
    by (simp add: f) (simp add: world0_def)
  have k: "filter_run [new_year, summer] (mk_date 2023 1 1) (mk_date 2023 1 2) = ([new_year], [])"
    by (simp add: filter_run_def filter_step_def new_year_def summer_def holiday_date_holiday_on
        datetime_new_def as_c_int_def check_date_args_def days_in_month_def dt_le_def dt_key_def
        mk_date_def)
  have n: "output_name False ''UA'' (mk_date 2023 1 1) (mk_date 2023 1 2)
      = ''UA_01-01-2023_02-01-2023.txt''"
    by (simp add: output_name_def strftime_def two_digits_def str_int_def digits_of_1
        digits_of_4 digit_char_def mk_date_def)
  have p: "process_country (provider answer_2023 False) (mk_date 2023 1 1) (mk_date 2023 1 2)
        ''UA'' world0
      = \<lparr>requests = [(''UA'', 2023)],
          files = (\<lambda>f. None)(''UA_01-01-2023_02-01-2023.txt'' \<mapsto> dumps new_year @ [newline]),
          stdout = [SuccessfullySaved ''UA_01-01-2023_02-01-2023.txt'']\<rparr>"
    unfolding process_country_def u y
    by (simp add: k save_to_file_def say_def) (simp add: provider_def n say_def)
  show ?thesis
    using p by (simp add: main_def v say_def world0_def)
qed

section \<open>The orchestrator as a whole\<close>

lemma fst_fetch_holidays_cong:
  "respond ev w c y = respond ev' w' c y \<Longrightarrow>
     fst (fetch_holidays ev c y w) = fst (fetch_holidays ev' c y w')"
  by (simp add: fetch_holidays_def Let_def split: sum.splits exn.splits prod.splits)

lemma fst_fetch_holidays_provider:
  "fst (fetch_holidays (provider answer fills) c y w) = year_holidays answer c y"
  unfolding year_holidays_def by (rule fst_fetch_holidays_cong) (simp add: provider_def)

lemma year_results_provider:
  "year_results (provider answer fills) c yrs w = map (year_holidays answer c) yrs"
  by (induction yrs arbitrary: w) (simp_all add: fst_fetch_holidays_provider)

lemma write_succeeds_provider: "write_succeeds (provider answer fills) f data w"
  by (simp add: write_succeeds_def provider_def)

lemma files_process_country_provider:
  "files (process_country (provider answer fills) a b c w)
     = (files w)(output_name fills c a b \<mapsto>
          json_lines (filter_holidays_by_date (window_holidays answer a b c) a b))"
proof -
  have "fills_year (provider answer fills) = fills"
    by (simp add: provider_def)
  then show ?thesis
    by (simp add: process_country_eq save_to_file_succeeds [OF write_succeeds_provider]
        files_say files_year_loop year_results_provider window_holidays_def)
qed

lemma output_name_inj: "output_name fills c a b = output_name fills c' a b \<longleftrightarrow> c = c'"
  by (simp add: output_name_def)

lemma files_country_loop_provider:
  "c \<in> set cs \<Longrightarrow>
     files (country_loop (provider answer fills) a b cs w) (output_name fills c a b)
       = Some (json_lines (filter_holidays_by_date (window_holidays answer a b c) a b))"
proof (induction cs arbitrary: w)
  case Nil
  then show ?case by simp
next
  case (Cons c0 cs)
  show ?case
  proof (cases "c \<in> set cs")
    case True
    then show ?thesis by (simp add: Cons.IH)
  next
    case False
    with Cons.prems have c: "c = c0" by simp
    have other: "files (country_loop (provider answer fills) a b cs v) (output_name fills c a b)
        = files v (output_name fills c a b)" for v
      using False
    proof (induction cs arbitrary: v)
      case Nil
      show ?case by simp
    next
      case (Cons d ds)
      then have "c \<noteq> d" "c \<notin> set ds" by auto
      then show ?case
        by (simp add: Cons.IH files_process_country_provider output_name_inj)
    qed
    have "files (country_loop (provider answer fills) a b (c0 # cs) w) (output_name fills c a b)
        = files (process_country (provider answer fills) a b c w) (output_name fills c a b)"
      by (simp add: other c [symmetric])
    then show ?thesis
      by (simp add: files_process_country_provider)
  qed
qed

lemma country_loop_foldl:
  "country_loop ev a b cs w = foldl (\<lambda>v c. process_country ev a b c v) w cs"
  by (induction cs arbitrary: w) simp_all

text \<open>
  Claim C4. For every country of the list and every validated window, the orchestrator
  calls the fetcher once for each year from the year of the start to the year of the end,
  in the order of the years, so that a window over \<open>N\<close> calendar years sends \<open>N\<close>
  requests for each country. The run is the loop over the countries, in their order, of
  fetching the years, filtering the concatenation of the results in the order of the
  years, and writing what the filter kept. With a provider that answers by country and
  year and a disk that does not fail, the file of each country holds the filtered
  concatenation of that country's results.
\<close>

theorem main_fetches_once_per_year:
  assumes "validate_dates s e = (Inr (a, b), out)"
  shows "requests (main ev cs s e w) = requests w @ concat (map (country_requests a b) cs)
    \<and> (\<forall>c. country_requests a b c = map (\<lambda>yr. (c, yr)) [year a .. year b]
          \<and> length (country_requests a b c) = nat (year b - year a + 1)
          \<and> 1 \<le> length (country_requests a b c))
    \<and> main ev cs s e w = foldl (\<lambda>v c. process_country ev a b c v) w cs
    \<and> (\<forall>c v. fst (year_loop ev c [year a .. year b] ([], v))
            = concat (year_results ev c [year a .. year b] v)
          \<and> length (year_results ev c [year a .. year b] v) = nat (year b - year a + 1)
          \<and> process_country ev a b c v =
              save_to_file ev (output_name (fills_year ev) c a b)
                (filter_holidays_by_date (concat (year_results ev c [year a .. year b] v)) a b)
                (say (filter_printed (concat (year_results ev c [year a .. year b] v)) a b)
                   (snd (year_loop ev c [year a .. year b] ([], v)))))
    \<and> (\<forall>answer fills c. c \<in> set cs \<longrightarrow>
          files (main (provider answer fills) cs s e w) (output_name fills c a b)
            = Some (json_lines (filter_holidays_by_date
                (concat (map (year_holidays answer c) [year a .. year b])) a b)))"
proof -
  from validate_dates_Inr [OF assms] have le: "year a \<le> year b" and out: "out = []"
    by (simp_all add: dt_le_year)
  have m: "main ev' cs s e w = country_loop ev' a b cs w" for ev'
    using assms out by (simp add: main_def say_def)
  have r: "requests (main ev cs s e w) = requests w @ concat (map (country_requests a b) cs)"
    by (simp add: m requests_country_loop)
  have n: "length (year_results ev c yrs v) = length yrs" for c yrs v
    by (induction yrs arbitrary: v) simp_all
  have f: "main ev cs s e w = foldl (\<lambda>v c. process_country ev a b c v) w cs"
    by (simp add: m country_loop_foldl)
  have p: "files (main (provider answer fills) cs s e w) (output_name fills c a b)
      = Some (json_lines (filter_holidays_by_date
          (concat (map (year_holidays answer c) [year a .. year b])) a b))"
    if "c \<in> set cs" for answer fills c
    using files_country_loop_provider [OF that, of answer fills a b w]
    by (simp add: m window_holidays_def)
  have q: "\<forall>c. country_requests a b c = map (\<lambda>yr. (c, yr)) [year a .. year b]
          \<and> length (country_requests a b c) = nat (year b - year a + 1)
          \<and> 1 \<le> length (country_requests a b c)"
    using le by (simp add: country_requests_def)
  have y: "\<forall>c v. fst (year_loop ev c [year a .. year b] ([], v))
            = concat (year_results ev c [year a .. year b] v)
          \<and> length (year_results ev c [year a .. year b] v) = nat (year b - year a + 1)
          \<and> process_country ev a b c v =
              save_to_file ev (output_name (fills_year ev) c a b)
                (filter_holidays_by_date (concat (year_results ev c [year a .. year b] v)) a b)
                (say (filter_printed (concat (year_results ev c [year a .. year b] v)) a b)
                   (snd (year_loop ev c [year a .. year b] ([], v))))"
    by (simp add: n fst_year_loop process_country_eq [symmetric])
  from p have p': "\<forall>answer fills c. c \<in> set cs \<longrightarrow>
          files (main (provider answer fills) cs s e w) (output_name fills c a b)
            = Some (json_lines (filter_holidays_by_date
                (concat (map (year_holidays answer c) [year a .. year b])) a b))"
    by blast
  from r q f y p' show ?thesis
    by (intro conjI)
qed

theorem main_fetches_once_per_year_witness:
  "validate_dates ''2023-12-20'' ''2024-01-05'' = (Inr (mk_date 2023 12 20, mk_date 2024 1 5), [])
   \<and> requests (main (provider answer_two_years False) [''UA'', ''US''] ''2023-12-20''
        ''2024-01-05'' world0)
     = [(''UA'', 2023), (''UA'', 2024), (''US'', 2023), (''US'', 2024)]
   \<and> year_holidays answer_two_years ''UA'' 2023 = [summer, christmas]
   \<and> year_holidays answer_two_years ''UA'' 2024 = [jan 1, jan 10]
   \<and> files (main (provider answer_two_years False) [''UA'', ''US''] ''2023-12-20'' ''2024-01-05''
        world0) ''UA_20-12-2023_05-01-2024.txt''
     = Some (json_lines [christmas, jan 1])"
proof -
  have v: "validate_dates ''2023-12-20'' ''2024-01-05''
      = (Inr (mk_date 2023 12 20, mk_date 2024 1 5), [])"
    by (simp add: validate_dates_def validate_dates_try_def strptime_eval dt_less_def dt_key_def)
  note t = main_fetches_once_per_year [OF v, of "provider answer_two_years False"
      "[''UA'', ''US'']" world0]
  have u: "[year (mk_date 2023 12 20) .. year (mk_date 2024 1 5)] = [2023, 2024]"
    by (simp add: mk_date_def upto_rec_numeral)
  have "requests (main (provider answer_two_years False) [''UA'', ''US''] ''2023-12-20''
        ''2024-01-05'' world0)
     = requests world0 @ concat (map (country_requests (mk_date 2023 12 20) (mk_date 2024 1 5))
         [''UA'', ''US''])"
    by (rule t [THEN conjunct1])
  also have "\<dots> = [(''UA'', 2023), (''UA'', 2024), (''US'', 2023), (''US'', 2024)]"
    by (simp add: world0_def country_requests_def u)
  finally have r: "requests (main (provider answer_two_years False) [''UA'', ''US'']
        ''2023-12-20'' ''2024-01-05'' world0)
     = [(''UA'', 2023), (''UA'', 2024), (''US'', 2023), (''US'', 2024)]" .
  have r3: "respond (provider answer_two_years False) world0 ''UA'' 2023
      = Response 200 (Json (JObj [(''response'', JObj [(''holidays'', JArr [summer, christmas])])]))"
    by (simp add: provider_def answer_two_years_def body_with_def)
  have r4: "respond (provider answer_two_years False) world0 ''UA'' 2024
      = Response 200 (Json (JObj [(''response'', JObj [(''holidays'', JArr [jan 1, jan 10])])]))"
    by (simp add: provider_def answer_two_years_def body_with_def)
  have h3: "year_holidays answer_two_years ''UA'' 2023 = [summer, christmas]"
    unfolding year_holidays_def
    by (simp add: fetch_holidays_success [OF r3, of "[(''holidays'', JArr [summer, christmas])]"
          "[summer, christmas]"])
  have h4: "year_holidays answer_two_years ''UA'' 2024 = [jan 1, jan 10]"
    unfolding year_holidays_def
    by (simp add: fetch_holidays_success [OF r4, of "[(''holidays'', JArr [jan 1, jan 10])]"
          "[jan 1, jan 10]"])
  have n: "output_name False ''UA'' (mk_date 2023 12 20) (mk_date 2024 1 5)
      = ''UA_20-12-2023_05-01-2024.txt''"
    by (simp add: output_name_def strftime_def two_digits_def str_int_def digits_of_1 digits_of_2
        digits_of_4 digit_char_def mk_date_def)
  have k: "filter_holidays_by_date [summer, christmas, jan 1, jan 10] (mk_date 2023 12 20)
        (mk_date 2024 1 5) = [christmas, jan 1]"
    by (simp add: filter_holidays_by_date_eq in_window_def summer_def christmas_def jan_def
        holiday_date_holiday_on datetime_new_def as_c_int_def check_date_args_def
        days_in_month_def dt_le_def dt_key_def mk_date_def)
  have "files (main (provider answer_two_years False) [''UA'', ''US''] ''2023-12-20''
        ''2024-01-05'' world0)
        (output_name False ''UA'' (mk_date 2023 12 20) (mk_date 2024 1 5))
      = Some (json_lines (filter_holidays_by_date
          (concat (map (year_holidays answer_two_years ''UA'')
             [year (mk_date 2023 12 20) .. year (mk_date 2024 1 5)]))
          (mk_date 2023 12 20) (mk_date 2024 1 5)))"
    by (rule t [THEN conjunct2, THEN conjunct2, THEN conjunct2, THEN conjunct2, rule_format])
      simp
  then have f: "files (main (provider answer_two_years False) [''UA'', ''US''] ''2023-12-20''
        ''2024-01-05'' world0) ''UA_20-12-2023_05-01-2024.txt''
      = Some (json_lines [christmas, jan 1])"
    by (simp add: n u h3 h4 k)
  from v r h3 h4 f show ?thesis
    by (intro conjI)
qed

end
